theory Spec2Isabelle
  imports Main "HOL-Library.AList"
begin

section \<open>Sound mode handling of the Denon AVR client (denonavr/soundmode.py)\<close>

text \<open>
  The module keeps, per resolver object, the last raw sound mode string reported by the
  receiver, a support flag, a reference to an ordered table from normalized mode names to
  lists of raw aliases, and a reference to a reverse dictionary from upper-cased aliases to
  mode names. The table and the reverse dictionary are mutable Python objects that are
  mutated in place, copied by \<open>deepcopy\<close> and referenced from object fields, so they live in
  an explicit store; the resolver holds their addresses.
\<close>

subsection \<open>Strings\<close>

text \<open>
  Python strings are modelled as \<^typ>\<open>string\<close>. \<open>str.upper\<close> is modelled on the ASCII range,
  which is what the receiver reports: the letters a to z are mapped to A to Z and every
  other character is left as it is.
\<close>

definition upper_char :: "char \<Rightarrow> char" where
  "upper_char c =
     (let n = (of_char c :: nat) in if 97 \<le> n \<and> n \<le> 122 then char_of (n - 32) else c)"

definition upper :: "string \<Rightarrow> string" where
  "upper s = map upper_char s"

text \<open>
  The ASCII characters that \<open>str.rstrip()\<close> removes: tab, line feed, vertical tab, form
  feed, carriage return, the four separators 0x1C to 0x1F and the space.
\<close>

definition is_space :: "char \<Rightarrow> bool" where
  "is_space c = (let n = (of_char c :: nat) in (9 \<le> n \<and> n \<le> 13) \<or> (28 \<le> n \<and> n \<le> 32))"

text \<open>\<open>rstrip_string\<close>, the converter of the field \<open>_sound_mode_raw\<close>; the argument may be None.\<close>

definition rstrip :: "string \<Rightarrow> string" where
  "rstrip s = rev (dropWhile is_space (rev s))"

definition rstrip_string :: "string option \<Rightarrow> string option" where
  "rstrip_string v = (case v of None \<Rightarrow> None | Some s \<Rightarrow> Some (rstrip s))"

subsection \<open>Exceptions, the device and the transport\<close>

text \<open>
  \<open>AvrProcessingError\<close> is the only exception class the module names. Every other exception
  that a transport call can raise is \<open>OtherError\<close>; \<open>AttributeError\<close> is what Python raises
  for \<open>None.upper()\<close>.
\<close>

datatype exn = AvrProcessingError string | OtherError string | AttributeError

text \<open>
  Modelled from the spec: the receiver families of \<open>const.py\<close>, which is not part of the
  sources at hand. \<open>AVR_X\<close> and \<open>AVR_X_2016\<close> are the two families that always support sound
  modes.
\<close>

datatype receiver_type = AVR | AVR_X | AVR_X_2016

text \<open>
  Modelled from the spec: the name of the all-zone-stereo pseudo mode, a constant of
  \<open>const.py\<close>.
\<close>

definition ALL_ZONE_STEREO :: string where
  "ALL_ZONE_STEREO = ''ALL ZONE STEREO''"

text \<open>
  Modelled from the spec: the only AppCommand tag the module registers, a constant of
  \<open>appcommand.py\<close>.
\<close>

datatype appcommand = GetSurroundModeStatus

text \<open>The fields of \<open>self._device\<close> that the module reads.\<close>

record device =
  use_avr_2016_update :: "bool option"
  receiver :: "receiver_type option"
  urls_status :: string
  urls_mainzone :: string
  urls_command_set_all_zone_stereo :: string
  urls_command_sel_sound_mode :: string

type_synonym cache_id = "nat option"

text \<open>What the module asks of its transport collaborators; the store keeps them in order.\<close>

datatype request =
    AppCommandUpdate "appcommand list" bool cache_id
  | StatusXmlUpdate "(string \<times> string) list" "string list" cache_id
  | GetCommand string

text \<open>
  The answers of the receiver. An update request either fails with an exception or
  delivers the text found for the field \<open>_sound_mode_raw\<close>; a command either fails or
  completes.
\<close>

record transport =
  appcommand_answer :: "appcommand list \<Rightarrow> bool \<Rightarrow> cache_id \<Rightarrow> exn + string option"
  status_xml_answer :: "(string \<times> string) list \<Rightarrow> string list \<Rightarrow> cache_id \<Rightarrow> exn + string option"
  command_answer :: "string \<Rightarrow> exn + unit"

subsection \<open>The store\<close>

text \<open>
  Objects are kept by class: list objects, \<open>OrderedDict\<close> objects whose values are
  references to list objects, and \<open>dict\<close> objects from strings to strings. Addresses below
  \<open>next_addr\<close> are allocated. Besides the objects, the world holds what the module does to
  its collaborators: the requests sent to the transport, the tags registered with the
  device API, and the log records.
\<close>

type_synonym addr = nat

datatype loglevel = INFO | WARNING

record world =
  lists :: "addr \<Rightarrow> string list"
  odicts :: "addr \<Rightarrow> (string \<times> addr) list"
  dicts :: "addr \<Rightarrow> (string \<times> string) list"
  next_addr :: addr
  calls :: "request list"
  appcommand_tags :: "appcommand list"
  log :: "(loglevel \<times> string) list"

definition empty_world :: world where
  "empty_world = \<lparr>lists = (\<lambda>_. []), odicts = (\<lambda>_. []), dicts = (\<lambda>_. []), next_addr = 0,
     calls = [], appcommand_tags = [], log = []\<rparr>"

definition alloc_list :: "string list \<Rightarrow> world \<Rightarrow> addr \<times> world" where
  "alloc_list xs w =
     (next_addr w, w\<lparr>lists := (lists w)(next_addr w := xs), next_addr := Suc (next_addr w)\<rparr>)"

definition alloc_odict :: "(string \<times> addr) list \<Rightarrow> world \<Rightarrow> addr \<times> world" where
  "alloc_odict kvs w =
     (next_addr w, w\<lparr>odicts := (odicts w)(next_addr w := kvs), next_addr := Suc (next_addr w)\<rparr>)"

definition alloc_dict :: "(string \<times> string) list \<Rightarrow> world \<Rightarrow> addr \<times> world" where
  "alloc_dict kvs w =
     (next_addr w, w\<lparr>dicts := (dicts w)(next_addr w := kvs), next_addr := Suc (next_addr w)\<rparr>)"

text \<open>
  Item assignment \<open>d[k] = v\<close> of a Python dictionary keeps the position of a key that is
  present and appends a new key at the end, which is \<^const>\<open>AList.update\<close>.
\<close>

definition odict_setitem :: "addr \<Rightarrow> string \<Rightarrow> addr \<Rightarrow> world \<Rightarrow> world" where
  "odict_setitem d k v w = w\<lparr>odicts := (odicts w)(d := AList.update k v (odicts w d))\<rparr>"

text \<open>The items of an ordered table, with the list objects read: \<open>(key, aliases)\<close> pairs.\<close>

definition odict_items :: "world \<Rightarrow> addr \<Rightarrow> (string \<times> string list) list" where
  "odict_items w d = map (\<lambda>(k, l). (k, lists w l)) (odicts w d)"

subsection \<open>The resolver object\<close>

text \<open>
  The fields of \<open>DenonAVRSoundMode\<close>, the two of \<open>DenonAVRFoundation\<close> included. The private
  fields \<open>_name\<close> of the source are \<open>priv_name\<close> here.
\<close>

record resolver =
  priv_device :: device
  priv_is_setup :: bool
  priv_support_sound_mode :: "bool option"
  priv_sound_mode_raw :: "string option"
  priv_sound_mode_map :: addr
  priv_sound_mode_map_rev :: addr

subsection \<open>The reverse map\<close>

text \<open>The inner loop of \<open>sound_mode_rev_map_factory\<close>: one entry per alias of one mode.\<close>

fun rev_map_sublist :: "string \<Rightarrow> string list \<Rightarrow> (string \<times> string) list \<Rightarrow> (string \<times> string) list" where
  "rev_map_sublist matched_mode [] mode_map_rev = mode_map_rev"
| "rev_map_sublist matched_mode (raw_mode # sublist) mode_map_rev =
     rev_map_sublist matched_mode sublist (AList.update (upper raw_mode) matched_mode mode_map_rev)"

text \<open>The outer loop, over the items of the table in their order.\<close>

fun rev_map_items :: "(string \<times> string list) list \<Rightarrow> (string \<times> string) list \<Rightarrow> (string \<times> string) list" where
  "rev_map_items [] mode_map_rev = mode_map_rev"
| "rev_map_items ((matched_mode, sublist) # mode_map) mode_map_rev =
     rev_map_items mode_map (rev_map_sublist matched_mode sublist mode_map_rev)"

text \<open>The factory builds a new dictionary object from the table the resolver refers to.\<close>

definition sound_mode_rev_map_factory :: "resolver \<Rightarrow> world \<Rightarrow> addr \<times> world" where
  "sound_mode_rev_map_factory instance w =
     (let mode_map = odict_items w (priv_sound_mode_map instance);
          mode_map_rev = rev_map_items mode_map []
      in alloc_dict mode_map_rev w)"

subsection \<open>Matching\<close>

definition warning_not_matched :: "string \<Rightarrow> string" where
  "warning_not_matched smr_up =
     ''Not able to match sound mode: '' @ [CHR 0x27] @ smr_up @ [CHR 0x27]
       @ '', returning raw sound mode.''"

text \<open>
  \<open>match_sound_mode\<close>. The result is the returned value or the exception, with the resolver
  and the world as the call leaves them. On a miss the table object is extended in place,
  the reverse dictionary is rebuilt and assigned, a warning is logged, and the argument
  itself is returned.
\<close>

definition match_sound_mode ::
  "string option \<Rightarrow> resolver \<Rightarrow> world \<Rightarrow> (exn + string option) \<times> resolver \<times> world" where
  "match_sound_mode sound_mode_raw self w =
     (if priv_sound_mode_raw self = None then (Inr None, self, w)
      else case sound_mode_raw of
        None \<Rightarrow> (Inl AttributeError, self, w)
      | Some x \<Rightarrow>
          (case map_of (dicts w (priv_sound_mode_map_rev self)) (upper x) of
             Some sound_mode \<Rightarrow> (Inr (Some sound_mode), self, w)
           | None \<Rightarrow>
               (let smr_up = upper x;
                    (l, w1) = alloc_list [smr_up] w;
                    w2 = odict_setitem (priv_sound_mode_map self) smr_up l w1;
                    (r, w3) = sound_mode_rev_map_factory self w2;
                    self' = self\<lparr>priv_sound_mode_map_rev := r\<rparr>;
                    w4 = w3\<lparr>log := log w3 @ [(WARNING, warning_not_matched smr_up)]\<rparr>
                in (Inr (Some x), self', w4))))"

subsection \<open>The transport helpers of the base class\<close>

text \<open>
  Modelled from the spec: \<open>DenonAVRFoundation.async_update_attrs_appcommand\<close> of
  \<open>foundation.py\<close>, which is not part of the sources at hand. It sends one query for the
  given tags through the command-aggregation transport; a failure is raised to the caller,
  otherwise the value found is assigned to \<open>_sound_mode_raw\<close>, through the converter of
  that field.
\<close>

definition async_update_attrs_appcommand ::
  "transport \<Rightarrow> appcommand list \<Rightarrow> bool \<Rightarrow> cache_id \<Rightarrow> resolver \<Rightarrow> world
     \<Rightarrow> (exn + unit) \<times> resolver \<times> world" where
  "async_update_attrs_appcommand t update_attrs global_update cache self w =
     (let w1 = w\<lparr>calls := calls w @ [AppCommandUpdate update_attrs global_update cache]\<rparr>
      in case appcommand_answer t update_attrs global_update cache of
           Inl e \<Rightarrow> (Inl e, self, w1)
         | Inr v \<Rightarrow> (Inr (), self\<lparr>priv_sound_mode_raw := rstrip_string v\<rparr>, w1))"

text \<open>
  Modelled from the spec: \<open>DenonAVRFoundation.async_update_attrs_status_xml\<close> of
  \<open>foundation.py\<close>. Given the pairs of field name and XML path and the candidate pages, it
  fetches and parses the value; it fails with a processing error when the path resolves on
  none of the pages, and then nothing is assigned.
\<close>

definition async_update_attrs_status_xml ::
  "transport \<Rightarrow> (string \<times> string) list \<Rightarrow> string list \<Rightarrow> cache_id \<Rightarrow> resolver \<Rightarrow> world
     \<Rightarrow> (exn + unit) \<times> resolver \<times> world" where
  "async_update_attrs_status_xml t update_attrs urls cache self w =
     (let w1 = w\<lparr>calls := calls w @ [StatusXmlUpdate update_attrs urls cache]\<rparr>
      in case status_xml_answer t update_attrs urls cache of
           Inl e \<Rightarrow> (Inl e, self, w1)
         | Inr v \<Rightarrow> (Inr (), self\<lparr>priv_sound_mode_raw := rstrip_string v\<rparr>, w1))"

text \<open>
  Modelled from the spec: \<open>api.async_get_command\<close>, the command transport. It issues the
  command URL; no response is consumed.
\<close>

definition async_get_command ::
  "transport \<Rightarrow> string \<Rightarrow> resolver \<Rightarrow> world \<Rightarrow> (exn + unit) \<times> resolver \<times> world" where
  "async_get_command t command_url self w =
     (command_answer t command_url, self, w\<lparr>calls := calls w @ [GetCommand command_url]\<rparr>)"

text \<open>
  Modelled from the spec: \<open>api.add_appcommand_update_tag\<close>, which registers a tag with the
  command-aggregation layer of the device.
\<close>

definition add_appcommand_update_tag :: "appcommand \<Rightarrow> world \<Rightarrow> world" where
  "add_appcommand_update_tag tag w = w\<lparr>appcommand_tags := appcommand_tags w @ [tag]\<rparr>"

subsection \<open>Updating\<close>

text \<open>The class attributes that name what to update.\<close>

definition appcommand_attrs :: "appcommand list" where
  "appcommand_attrs = [GetSurroundModeStatus]"

definition status_xml_attrs_01 :: "(string \<times> string) list" where
  "status_xml_attrs_01 = [(''_sound_mode_raw'', ''./selectSurround/value'')]"

definition status_xml_attrs_02 :: "(string \<times> string) list" where
  "status_xml_attrs_02 = [(''_sound_mode_raw'', ''./SurrMode/value'')]"

definition not_setup_message :: string where
  "not_setup_message = ''Device is not setup correctly, update method not set''"

text \<open>
  \<open>async_update_sound_mode\<close>. Only \<open>AvrProcessingError\<close> is caught, first to try the second
  tag and then to record that sound modes are not supported; any other exception leaves
  through the caller.
\<close>

definition async_update_sound_mode ::
  "transport \<Rightarrow> bool \<Rightarrow> cache_id \<Rightarrow> resolver \<Rightarrow> world \<Rightarrow> (exn + unit) \<times> resolver \<times> world" where
  "async_update_sound_mode t global_update cache self w =
     (case use_avr_2016_update (priv_device self) of
        Some True \<Rightarrow> async_update_attrs_appcommand t appcommand_attrs global_update cache self w
      | Some False \<Rightarrow>
          (let urls = [urls_status (priv_device self), urls_mainzone (priv_device self)]
           in if priv_support_sound_mode self = Some False then (Inr (), self, w)
              else
                (case async_update_attrs_status_xml t status_xml_attrs_01 urls cache self w of
                   (Inr u, self1, w1) \<Rightarrow>
                     (Inr (), self1\<lparr>priv_support_sound_mode := Some True\<rparr>, w1)
                 | (Inl (AvrProcessingError m1), self1, w1) \<Rightarrow>
                     (case async_update_attrs_status_xml t status_xml_attrs_02 urls cache self1 w1 of
                        (Inr u, self2, w2) \<Rightarrow>
                          (Inr (), self2\<lparr>priv_support_sound_mode := Some True\<rparr>, w2)
                      | (Inl (AvrProcessingError m2), self2, w2) \<Rightarrow>
                          (Inr (), self2\<lparr>priv_support_sound_mode := Some False\<rparr>,
                           w2\<lparr>log := log w2 @ [(INFO, ''Sound mode not supported'')]\<rparr>)
                      | (Inl e, self2, w2) \<Rightarrow> (Inl e, self2, w2))
                 | (Inl e, self1, w1) \<Rightarrow> (Inl e, self1, w1)))
      | None \<Rightarrow> (Inl (AvrProcessingError not_setup_message), self, w))"

text \<open>The loop of \<open>async_setup\<close> over the tags.\<close>

fun add_tags :: "appcommand list \<Rightarrow> world \<Rightarrow> world" where
  "add_tags [] w = w"
| "add_tags (tag # tags) w = add_tags tags (add_appcommand_update_tag tag w)"

definition async_setup ::
  "transport \<Rightarrow> resolver \<Rightarrow> world \<Rightarrow> (exn + unit) \<times> resolver \<times> world" where
  "async_setup t self w =
     (let w1 = add_tags appcommand_attrs w
      in if receiver (priv_device self) \<in> {Some AVR_X, Some AVR_X_2016}
         then (Inr (), self\<lparr>priv_support_sound_mode := Some True, priv_is_setup := True\<rparr>, w1)
         else
           (case async_update_sound_mode t False None self w1 of
              (Inr u, self1, w2) \<Rightarrow> (Inr (), self1\<lparr>priv_is_setup := True\<rparr>, w2)
            | (Inl e, self1, w2) \<Rightarrow> (Inl e, self1, w2)))"

definition async_update ::
  "transport \<Rightarrow> bool \<Rightarrow> cache_id \<Rightarrow> resolver \<Rightarrow> world \<Rightarrow> (exn + unit) \<times> resolver \<times> world" where
  "async_update t global_update cache self w =
     (if \<not> priv_is_setup self
      then (case async_setup t self w of
              (Inr u, self1, w1) \<Rightarrow> async_update_sound_mode t global_update cache self1 w1
            | (Inl e, self1, w1) \<Rightarrow> (Inl e, self1, w1))
      else async_update_sound_mode t global_update cache self w)"

subsection \<open>Coroutines\<close>

text \<open>
  The body of an \<open>async def\<close> function runs when the coroutine object that the call returns
  is awaited. A call whose result is not awaited only builds the coroutine object: the
  body never runs and the world stays as it is.
\<close>

type_synonym 'a coroutine = "resolver \<Rightarrow> world \<Rightarrow> (exn + 'a) \<times> resolver \<times> world"

definition await :: "'a coroutine \<Rightarrow> resolver \<Rightarrow> world \<Rightarrow> (exn + 'a) \<times> resolver \<times> world" where
  "await c self w = c self w"

definition not_awaited :: "'a coroutine \<Rightarrow> resolver \<Rightarrow> world \<Rightarrow> resolver \<times> world" where
  "not_awaited c self w = (self, w)"

subsection \<open>Accessors\<close>

text \<open>The property \<open>sound_mode\<close> matches the stored raw mode on every read.\<close>

definition sound_mode :: "resolver \<Rightarrow> world \<Rightarrow> (exn + string option) \<times> resolver \<times> world" where
  "sound_mode self w = match_sound_mode (priv_sound_mode_raw self) self w"

definition support_sound_mode :: "resolver \<Rightarrow> bool option" where
  "support_sound_mode self = priv_support_sound_mode self"

definition sound_mode_raw :: "resolver \<Rightarrow> string option" where
  "sound_mode_raw self = priv_sound_mode_raw self"

text \<open>\<open>sound_mode_list\<close> returns a new list object with the keys of the table.\<close>

definition sound_mode_list :: "resolver \<Rightarrow> world \<Rightarrow> addr \<times> world" where
  "sound_mode_list self w = alloc_list (map fst (odicts w (priv_sound_mode_map self))) w"

text \<open>
  \<open>deepcopy\<close> of the table copies every list object it refers to; a list object that is
  referred to under several keys is copied once (the memo of \<open>deepcopy\<close>). Strings are
  immutable and are not copied.
\<close>

fun deepcopy_items ::
  "(addr \<times> addr) list \<Rightarrow> (string \<times> addr) list \<Rightarrow> world \<Rightarrow> (string \<times> addr) list \<times> world" where
  "deepcopy_items memo [] w = ([], w)"
| "deepcopy_items memo ((k, l) # kvs) w =
     (case map_of memo l of
        Some l' \<Rightarrow>
          (let (kvs', w') = deepcopy_items memo kvs w in ((k, l') # kvs', w'))
      | None \<Rightarrow>
          (let (l', w1) = alloc_list (lists w l) w;
               (kvs', w2) = deepcopy_items ((l, l') # memo) kvs w1
           in ((k, l') # kvs', w2)))"

definition deepcopy_odict :: "addr \<Rightarrow> world \<Rightarrow> addr \<times> world" where
  "deepcopy_odict d w = (let (kvs, w1) = deepcopy_items [] (odicts w d) w in alloc_odict kvs w1)"

definition deepcopy_dict :: "addr \<Rightarrow> world \<Rightarrow> addr \<times> world" where
  "deepcopy_dict d w = alloc_dict (dicts w d) w"

definition sound_mode_map :: "resolver \<Rightarrow> world \<Rightarrow> addr \<times> world" where
  "sound_mode_map self w = deepcopy_odict (priv_sound_mode_map self) w"

definition sound_mode_map_rev :: "resolver \<Rightarrow> world \<Rightarrow> addr \<times> world" where
  "sound_mode_map_rev self w = deepcopy_dict (priv_sound_mode_map_rev self) w"

subsection \<open>Setting the sound mode\<close>

text \<open>\<open>_async_set_all_zone_stereo\<close>.\<close>

definition async_set_all_zone_stereo :: "transport \<Rightarrow> bool \<Rightarrow> unit coroutine" where
  "async_set_all_zone_stereo t zst_on self w =
     (let command_url = urls_command_set_all_zone_stereo (priv_device self);
          command_url = (if zst_on then command_url @ ''ZST ON'' else command_url @ ''ZST OFF'')
      in await (async_get_command t command_url) self w)"

text \<open>
  \<open>async_set_sound_mode\<close>. The call for the pseudo mode is awaited. The call that would
  switch all-zone-stereo off is made without \<open>await\<close>, so only the coroutine object is
  built. Reading the property \<open>sound_mode\<close> runs the matcher, which cannot raise here
  because its argument is the stored raw mode.
\<close>

definition async_set_sound_mode :: "transport \<Rightarrow> string \<Rightarrow> unit coroutine" where
  "async_set_sound_mode t sound_mode' self w =
     (if sound_mode' = ALL_ZONE_STEREO
      then await (async_set_all_zone_stereo t True) self w
      else
        (case sound_mode self w of
           (Inl e, self1, w1) \<Rightarrow> (Inl e, self1, w1)
         | (Inr current, self1, w1) \<Rightarrow>
             (let (self2, w2) =
                    (if current = Some ALL_ZONE_STEREO
                     then not_awaited (async_set_all_zone_stereo t False) self1 w1
                     else (self1, w1));
                  command_url = urls_command_sel_sound_mode (priv_device self2) @ sound_mode'
              in await (async_get_command t command_url) self2 w2)))"

subsection \<open>Construction\<close>

text \<open>
  The table \<open>SOUND_MODE_MAPPING\<close> of \<open>const.py\<close> is an object that exists before any
  resolver does. Its content is not part of the sources at hand, so it is a parameter:
  \<open>load_table\<close> puts a table literal into the store, one list object per entry.
\<close>

fun load_items ::
  "(string \<times> string list) list \<Rightarrow> (string \<times> addr) list \<Rightarrow> world \<Rightarrow> (string \<times> addr) list \<times> world" where
  "load_items [] kvs w = (kvs, w)"
| "load_items ((k, xs) # tbl) kvs w =
     (let (l, w1) = alloc_list xs w in load_items tbl (AList.update k l kvs) w1)"

definition load_table :: "(string \<times> string list) list \<Rightarrow> world \<Rightarrow> addr \<times> world" where
  "load_table tbl w = (let (kvs, w1) = load_items tbl [] w in alloc_odict kvs w1)"

text \<open>
  The generated \<open>__init__\<close> with the defaults of the fields: the table field refers to the
  given table object itself, and the reverse map is built by the factory from the
  instance, whose reverse map field is not set at that moment.
\<close>

definition init_resolver :: "device \<Rightarrow> addr \<Rightarrow> world \<Rightarrow> resolver \<times> world" where
  "init_resolver dev SOUND_MODE_MAPPING w =
     (let self = \<lparr>priv_device = dev, priv_is_setup = False, priv_support_sound_mode = None,
                  priv_sound_mode_raw = rstrip_string None,
                  priv_sound_mode_map = SOUND_MODE_MAPPING,
                  priv_sound_mode_map_rev = 0\<rparr>;
          (r, w1) = sound_mode_rev_map_factory self w
      in (self\<lparr>priv_sound_mode_map_rev := r\<rparr>, w1))"

text \<open>\<open>sound_mode_factory\<close> builds the resolver for the device of the given instance.\<close>

definition sound_mode_factory :: "device \<Rightarrow> addr \<Rightarrow> world \<Rightarrow> resolver \<times> world" where
  "sound_mode_factory instance_device SOUND_MODE_MAPPING w =
     init_resolver instance_device SOUND_MODE_MAPPING w"

subsection \<open>Callers\<close>

text \<open>
  What the owner of a resolver can do with it: the public coroutines, each with the
  answers the receiver gives during that call, the matcher and the accessors. A step
  keeps the resolver and the world as the call leaves them, whether it returned or raised.
\<close>

datatype op =
    Setup transport
  | Update transport bool cache_id
  | UpdateSoundMode transport bool cache_id
  | MatchSoundMode "string option"
  | GetSoundMode
  | GetSoundModeList
  | GetSoundModeMap
  | GetSoundModeMapRev
  | SetSoundMode transport string

fun step :: "op \<Rightarrow> resolver \<times> world \<Rightarrow> resolver \<times> world" where
  "step (Setup t) (self, w) = snd (async_setup t self w)"
| "step (Update t global_update cache) (self, w) = snd (async_update t global_update cache self w)"
| "step (UpdateSoundMode t global_update cache) (self, w) =
     snd (async_update_sound_mode t global_update cache self w)"
| "step (MatchSoundMode x) (self, w) = snd (match_sound_mode x self w)"
| "step GetSoundMode (self, w) = snd (sound_mode self w)"
| "step GetSoundModeList (self, w) = (self, snd (sound_mode_list self w))"
| "step GetSoundModeMap (self, w) = (self, snd (sound_mode_map self w))"
| "step GetSoundModeMapRev (self, w) = (self, snd (sound_mode_map_rev self w))"
| "step (SetSoundMode t m) (self, w) = snd (async_set_sound_mode t m self w)"

fun run :: "op list \<Rightarrow> resolver \<times> world \<Rightarrow> resolver \<times> world" where
  "run [] s = s"
| "run (c # cs) s = run cs (step c s)"

text \<open>
  What a caller can do to a table it got from the accessor \<open>sound_mode_map\<close>: bind a key
  to a new list, bind a key to the list of another key, delete a key, clear the table, and
  change the list under a key in place in any way (append, insert, sort, item assignment).
  A key that is missing raises \<open>KeyError\<close> and changes nothing.
\<close>

datatype map_mutation =
    SetItem string "string list"
  | SetItemAlias string string
  | DelItem string
  | Clear
  | EditList string "string list \<Rightarrow> string list"

fun mutate_map :: "addr \<Rightarrow> map_mutation \<Rightarrow> world \<Rightarrow> world" where
  "mutate_map d (SetItem k xs) w = (let (l, w1) = alloc_list xs w in odict_setitem d k l w1)"
| "mutate_map d (SetItemAlias k j) w =
     (case map_of (odicts w d) j of None \<Rightarrow> w | Some l \<Rightarrow> odict_setitem d k l w)"
| "mutate_map d (DelItem k) w = w\<lparr>odicts := (odicts w)(d := AList.delete k (odicts w d))\<rparr>"
| "mutate_map d Clear w = w\<lparr>odicts := (odicts w)(d := [])\<rparr>"
| "mutate_map d (EditList k f) w =
     (case map_of (odicts w d) k of
        None \<Rightarrow> w
      | Some l \<Rightarrow> w\<lparr>lists := (lists w)(l := f (lists w l))\<rparr>)"

fun mutate_map_all :: "addr \<Rightarrow> map_mutation list \<Rightarrow> world \<Rightarrow> world" where
  "mutate_map_all d [] w = w"
| "mutate_map_all d (m # ms) w = mutate_map_all d ms (mutate_map d m w)"

text \<open>
  What a caller can do to a dictionary it got from \<open>sound_mode_map_rev\<close>, whose keys and
  values are immutable strings: set an item, delete an item, clear.
\<close>

datatype dict_mutation = DictSetItem string string | DictDelItem string | DictClear

fun mutate_dict :: "addr \<Rightarrow> dict_mutation \<Rightarrow> world \<Rightarrow> world" where
  "mutate_dict d (DictSetItem k v) w = w\<lparr>dicts := (dicts w)(d := AList.update k v (dicts w d))\<rparr>"
| "mutate_dict d (DictDelItem k) w = w\<lparr>dicts := (dicts w)(d := AList.delete k (dicts w d))\<rparr>"
| "mutate_dict d DictClear w = w\<lparr>dicts := (dicts w)(d := [])\<rparr>"

fun mutate_dict_all :: "addr \<Rightarrow> dict_mutation list \<Rightarrow> world \<Rightarrow> world" where
  "mutate_dict_all d [] w = w"
| "mutate_dict_all d (m # ms) w = mutate_dict_all d ms (mutate_dict d m w)"

subsection \<open>Properties of a state\<close>

text \<open>
  A table object is well formed when it and the list objects it refers to are allocated
  and its keys are distinct, as the keys of a Python dictionary are.
\<close>

definition wf_table :: "addr \<Rightarrow> world \<Rightarrow> bool" where
  "wf_table d w \<longleftrightarrow>
     d < next_addr w \<and> (\<forall>(k, l) \<in> set (odicts w d). l < next_addr w)
     \<and> distinct (map fst (odicts w d))"

definition wf_resolver :: "resolver \<Rightarrow> world \<Rightarrow> bool" where
  "wf_resolver self w \<longleftrightarrow>
     wf_table (priv_sound_mode_map self) w \<and> priv_sound_mode_map_rev self < next_addr w"

text \<open>The table and the reverse dictionary of a resolver, as values.\<close>

definition mode_map_of :: "resolver \<Rightarrow> world \<Rightarrow> (string \<times> string list) list" where
  "mode_map_of self w = odict_items w (priv_sound_mode_map self)"

definition mode_map_rev_of :: "resolver \<Rightarrow> world \<Rightarrow> (string \<times> string) list" where
  "mode_map_rev_of self w = dicts w (priv_sound_mode_map_rev self)"

text \<open>
  The invariant of the reverse index: every alias in the list under a key of the table is
  mapped, in upper case, to that key.
\<close>

definition rev_index_inv :: "resolver \<Rightarrow> world \<Rightarrow> bool" where
  "rev_index_inv self w \<longleftrightarrow>
     (\<forall>(m, rs) \<in> set (mode_map_of self w). \<forall>r \<in> set rs.
        map_of (mode_map_rev_of self w) (upper r) = Some m)"

text \<open>The reverse dictionary is the one that the factory builds from the table.\<close>

definition rev_map_built :: "resolver \<Rightarrow> world \<Rightarrow> bool" where
  "rev_map_built self w \<longleftrightarrow> mode_map_rev_of self w = rev_map_items (mode_map_of self w) []"

text \<open>No alias, compared in upper case, is listed under two keys of the table.\<close>

definition distinct_aliases :: "(string \<times> string list) list \<Rightarrow> bool" where
  "distinct_aliases tbl \<longleftrightarrow>
     (\<forall>(m, rs) \<in> set tbl. \<forall>(m', rs') \<in> set tbl. \<forall>r \<in> set rs. \<forall>r' \<in> set rs'.
        upper r = upper r' \<longrightarrow> m = m')"

text \<open>The string matches no alias of the table, compared in upper case.\<close>

definition no_alias :: "string \<Rightarrow> (string \<times> string list) list \<Rightarrow> bool" where
  "no_alias x tbl \<longleftrightarrow> (\<forall>(m, rs) \<in> set tbl. \<forall>r \<in> set rs. upper r \<noteq> upper x)"

text \<open>
  A receiver that answers no update request with a value: every answer to an update is an
  exception. An operation is without a value when it is not an update or its receiver is
  such.
\<close>

definition update_fails :: "transport \<Rightarrow> bool" where
  "update_fails t \<longleftrightarrow>
     (\<forall>attrs g c. isl (appcommand_answer t attrs g c))
     \<and> (\<forall>attrs urls c. isl (status_xml_answer t attrs urls c))"

fun no_value_op :: "op \<Rightarrow> bool" where
  "no_value_op (Setup t) = update_fails t"
| "no_value_op (Update t g c) = update_fails t"
| "no_value_op (UpdateSoundMode t g c) = update_fails t"
| "no_value_op c = True"

text \<open>
  The second world extends the first: what was allocated is still allocated, and every
  object allocated in the first is unchanged in the second.
\<close>

definition extends_store :: "world \<Rightarrow> world \<Rightarrow> bool" where
  "extends_store w w' \<longleftrightarrow>
     next_addr w \<le> next_addr w'
     \<and> (\<forall>a < next_addr w.
          lists w' a = lists w a \<and> odicts w' a = odicts w a \<and> dicts w' a = dicts w a)"

text \<open>Every object at an address below \<open>n\<close> is the same in both worlds.\<close>

definition unchanged_below :: "addr \<Rightarrow> world \<Rightarrow> world \<Rightarrow> bool" where
  "unchanged_below n w w' \<longleftrightarrow>
     (\<forall>a < n. lists w' a = lists w a \<and> odicts w' a = odicts w a \<and> dicts w' a = dicts w a)"

text \<open>The resolver refers to the same two objects, and the store is extended.\<close>

definition keeps_objects :: "resolver \<times> world \<Rightarrow> resolver \<times> world \<Rightarrow> bool" where
  "keeps_objects s s' \<longleftrightarrow>
     priv_sound_mode_map (fst s') = priv_sound_mode_map (fst s)
     \<and> priv_sound_mode_map_rev (fst s') = priv_sound_mode_map_rev (fst s)
     \<and> extends_store (snd s) (snd s')"

text \<open>
  A table object that only its holder refers to: it and its list objects are at addresses
  from \<open>n\<close> on.
\<close>

definition owned_from :: "addr \<Rightarrow> addr \<Rightarrow> world \<Rightarrow> bool" where
  "owned_from n d w \<longleftrightarrow>
     n \<le> d \<and> n \<le> next_addr w \<and> (\<forall>(k, l) \<in> set (odicts w d). n \<le> l)"

text \<open>
  The requests that probe the receiver for its sound mode are the two kinds of update
  request; a command is not a probe.
\<close>

fun is_probe :: "request \<Rightarrow> bool" where
  "is_probe (AppCommandUpdate attrs g c) = True"
| "is_probe (StatusXmlUpdate attrs urls c) = True"
| "is_probe (GetCommand url) = False"

definition probes :: "world \<Rightarrow> request list" where
  "probes w = filter is_probe (calls w)"

text \<open>
  The receiver families for which \<open>async_setup\<close> sets the support flag to true without
  asking the receiver.
\<close>

definition always_supported :: "device \<Rightarrow> bool" where
  "always_supported d \<longleftrightarrow> receiver d \<in> {Some AVR_X, Some AVR_X_2016}"

fun is_setup_op :: "op \<Rightarrow> bool" where
  "is_setup_op (Setup t) = True"
| "is_setup_op c = False"

subsection \<open>Example data\<close>

definition example_device :: device where
  "example_device = \<lparr>use_avr_2016_update = Some False, receiver = Some AVR,
     urls_status = ''/goform/formMainZone_MainZoneXmlStatus.xml'',
     urls_mainzone = ''/goform/formMainZone_MainZoneXml.xml'',
     urls_command_set_all_zone_stereo = ''/goform/formiPhoneAppDirect.xml?MN'',
     urls_command_sel_sound_mode = ''/goform/formiPhoneAppDirect.xml?MS''\<rparr>"

definition example_table :: "(string \<times> string list) list" where
  "example_table = [(''STEREO'', [''STEREO'']), (''AUTO'', [''None'']),
     (ALL_ZONE_STEREO, [''ALL ZONE STEREO''])]"

text \<open>A receiver on which both status pages lack the sound mode tag.\<close>

definition failing_transport :: transport where
  "failing_transport = \<lparr>appcommand_answer = (\<lambda>_ _ _. Inl (AvrProcessingError ''no tag'')),
     status_xml_answer = (\<lambda>_ _ _. Inl (AvrProcessingError ''no tag'')),
     command_answer = (\<lambda>_. Inr ())\<rparr>"

text \<open>A receiver that reports the given raw sound mode.\<close>

definition reporting_transport :: "string \<Rightarrow> transport" where
  "reporting_transport raw = \<lparr>appcommand_answer = (\<lambda>_ _ _. Inr (Some raw)),
     status_xml_answer = (\<lambda>_ _ _. Inr (Some raw)),
     command_answer = (\<lambda>_. Inr ())\<rparr>"

text \<open>The example table loaded into an empty store, and a resolver built on it.\<close>

definition example_state :: "resolver \<times> world" where
  "example_state =
     (let (tbl, w) = load_table example_table empty_world
      in sound_mode_factory example_device tbl w)"

text \<open>The example resolver after an update in which the receiver reported the raw mode.\<close>

definition example_state_reporting :: "string \<Rightarrow> resolver \<times> world" where
  "example_state_reporting raw = step (UpdateSoundMode (reporting_transport raw) False None) example_state"

text \<open>
  Two resolvers built one after the other on the same table object, as every resolver is
  built on the one default table; then the receiver of the first reports an unknown raw
  mode and its owner reads the accessor \<open>sound_mode\<close>. The result is the second resolver
  and the world.
\<close>

definition second_of_two :: "resolver \<times> world" where
  "second_of_two =
     (let (tbl, w0) = load_table example_table empty_world;
          (first, w1) = sound_mode_factory example_device tbl w0;
          (second, w2) = sound_mode_factory example_device tbl w1;
          (first', w3) = run [UpdateSoundMode (reporting_transport ''Dolby'') False None,
                              GetSoundMode] (first, w2)
      in (second, w3))"

text \<open>
  A receiver of the family \<open>AVR_X\<close> on which both status pages lack the tag: the resolver
  after its first \<open>async_update\<close>, which sets it up and then finds no sound mode.
\<close>

definition avr_x_state_unsupported :: "resolver \<times> world" where
  "avr_x_state_unsupported =
     (let (tbl, w) = load_table example_table empty_world
      in run [Update failing_transport False None]
           (sound_mode_factory (example_device\<lparr>receiver := Some AVR_X\<rparr>) tbl w))"

text \<open>The example resolver after an update during which both status pages lacked the tag.\<close>

definition example_state_unsupported :: "resolver \<times> world" where
  "example_state_unsupported = step (UpdateSoundMode failing_transport False None) example_state"

section \<open>Evaluation of the example data\<close>

lemmas example_eval = example_state_def load_table_def empty_world_def example_table_def
  sound_mode_factory_def init_resolver_def sound_mode_rev_map_factory_def alloc_list_def
  alloc_odict_def alloc_dict_def odict_items_def example_device_def rstrip_string_def
  ALL_ZONE_STEREO_def upper_def upper_char_def char_of_def bit_Suc_0_iff

lemmas update_eval = async_update_sound_mode_def async_update_attrs_status_xml_def
  async_update_attrs_appcommand_def status_xml_attrs_01_def status_xml_attrs_02_def
  failing_transport_def reporting_transport_def rstrip_def is_space_def Let_def

section \<open>Update dispatch\<close>

text \<open>
  Claim C4. When the capability flag \<open>use_avr_2016_update\<close> of the device is unset,
  \<open>async_update_sound_mode\<close> raises the processing error with the message "Device is not
  setup correctly, update method not set", and it leaves the resolver and the world as they
  were: in particular no request was sent to the transport.
\<close>

theorem update_unset_flag_fails:
  "use_avr_2016_update (priv_device self) = None \<Longrightarrow>
     async_update_sound_mode t global_update cache self w
       = (Inl (AvrProcessingError not_setup_message), self, w)"
  by (simp add: async_update_sound_mode_def)

theorem update_unset_flag_fails_witness:
  "use_avr_2016_update (example_device\<lparr>use_avr_2016_update := None\<rparr>) = None \<and>
   (let self = (fst example_state)\<lparr>priv_device := example_device\<lparr>use_avr_2016_update := None\<rparr>\<rparr>;
        (r, self', w') = async_update_sound_mode failing_transport False None self (snd example_state)
    in r = Inl (AvrProcessingError ''Device is not setup correctly, update method not set'')
       \<and> calls w' = [])"
  using update_unset_flag_fails [of "(fst example_state)\<lparr>priv_device := example_device\<lparr>use_avr_2016_update := None\<rparr>\<rparr>"
      failing_transport False None "snd example_state"]
  by (simp add: not_setup_message_def example_eval)

text \<open>
  Claim C3. When the capability flag is false and the lookups of both status page tags
  fail with a processing error, \<open>async_update_sound_mode\<close> returns without an exception,
  the support flag is false afterwards, and the stored raw mode is what it was.
\<close>

theorem update_both_schemas_fail:
  "use_avr_2016_update (priv_device self) = Some False \<Longrightarrow>
   status_xml_answer t status_xml_attrs_01
      [urls_status (priv_device self), urls_mainzone (priv_device self)] cache
     = Inl (AvrProcessingError m1) \<Longrightarrow>
   status_xml_answer t status_xml_attrs_02
      [urls_status (priv_device self), urls_mainzone (priv_device self)] cache
     = Inl (AvrProcessingError m2) \<Longrightarrow>
   (case async_update_sound_mode t global_update cache self w of
      (r, self', w') \<Rightarrow>
        r = Inr () \<and> priv_support_sound_mode self' = Some False
        \<and> priv_sound_mode_raw self' = priv_sound_mode_raw self)"
  by (simp add: async_update_sound_mode_def async_update_attrs_status_xml_def Let_def)

theorem update_both_schemas_fail_witness:
  "use_avr_2016_update (priv_device (fst example_state)) = Some False \<and>
   priv_support_sound_mode (fst example_state) = None \<and>
   (case async_update_sound_mode failing_transport False None (fst example_state) (snd example_state) of
      (r, self', w') \<Rightarrow>
        r = Inr () \<and> priv_support_sound_mode self' = Some False
        \<and> priv_sound_mode_raw self' = priv_sound_mode_raw (fst example_state))"
proof -
  have a: "use_avr_2016_update (priv_device (fst example_state)) = Some False"
    by (simp add: example_eval)
  have b: "priv_support_sound_mode (fst example_state) = None"
    by (simp add: example_eval)
  have c: "status_xml_answer failing_transport attrs urls None = Inl (AvrProcessingError ''no tag'')"
    for attrs urls
    by (simp add: failing_transport_def)
  show ?thesis
    using update_both_schemas_fail [OF a c c, of False "snd example_state"] a b
    by simp
qed

section \<open>Absent raw state\<close>

lemma update_sound_mode_fails_raw:
  "update_fails t \<Longrightarrow>
     priv_sound_mode_raw (fst (snd (async_update_sound_mode t g c self w))) = priv_sound_mode_raw self"
proof -
  assume f: "update_fails t"
  have a: "\<exists>e. appcommand_answer t attrs g c = Inl e" for attrs g c
    using f unfolding update_fails_def by (metis sum.collapse(1))
  have b: "\<exists>e. status_xml_answer t attrs urls c = Inl e" for attrs urls c
    using f unfolding update_fails_def by (metis sum.collapse(1))
  obtain e0 where e0: "appcommand_answer t appcommand_attrs g c = Inl e0"
    using a by blast
  obtain e1 where e1: "status_xml_answer t status_xml_attrs_01
      [urls_status (priv_device self), urls_mainzone (priv_device self)] c = Inl e1"
    using b by blast
  obtain e2 where e2: "status_xml_answer t status_xml_attrs_02
      [urls_status (priv_device self), urls_mainzone (priv_device self)] c = Inl e2"
    using b by blast
  show ?thesis
    by (simp add: async_update_sound_mode_def async_update_attrs_status_xml_def
        async_update_attrs_appcommand_def Let_def e0 e1 e2
        split: option.splits bool.splits exn.splits)
qed

lemma setup_fails_raw:
  "update_fails t \<Longrightarrow>
     priv_sound_mode_raw (fst (snd (async_setup t self w))) = priv_sound_mode_raw self"
  using update_sound_mode_fails_raw [of t False None self "add_tags appcommand_attrs w"]
  by (auto simp: async_setup_def Let_def split: prod.splits sum.splits)

lemma update_fails_raw:
  "update_fails t \<Longrightarrow>
     priv_sound_mode_raw (fst (snd (async_update t g c self w))) = priv_sound_mode_raw self"
  using setup_fails_raw [of t self w]
    update_sound_mode_fails_raw [of t g c self w]
    update_sound_mode_fails_raw [of t g c "fst (snd (async_setup t self w))" "snd (snd (async_setup t self w))"]
  by (auto simp: async_update_def split: prod.splits sum.splits)

lemma match_absent:
  "priv_sound_mode_raw self = None \<Longrightarrow> match_sound_mode x self w = (Inr None, self, w)"
  by (simp add: match_sound_mode_def)

lemma set_sound_mode_absent_raw:
  "priv_sound_mode_raw self = None \<Longrightarrow> fst (snd (async_set_sound_mode t m self w)) = self"
  by (simp add: async_set_sound_mode_def async_set_all_zone_stereo_def await_def
        async_get_command_def Let_def sound_mode_def match_absent)

lemma step_keeps_raw_absent:
  "priv_sound_mode_raw self = None \<Longrightarrow> no_value_op c \<Longrightarrow>
     priv_sound_mode_raw (fst (step c (self, w))) = None"
  by (cases c)
    (simp_all add: setup_fails_raw update_fails_raw update_sound_mode_fails_raw match_absent
      sound_mode_def set_sound_mode_absent_raw)

lemma run_keeps_raw_absent:
  "priv_sound_mode_raw (fst s) = None \<Longrightarrow> list_all no_value_op ops \<Longrightarrow>
     priv_sound_mode_raw (fst (run ops s)) = None"
proof (induction ops arbitrary: s)
  case Nil
  then show ?case by simp
next
  case (Cons c ops)
  then show ?case
    using step_keeps_raw_absent [of "fst s" c "snd s"] by simp
qed

lemma factory_raw: "priv_sound_mode_raw (fst (sound_mode_factory dev tbl w)) = None"
  by (simp add: sound_mode_factory_def init_resolver_def sound_mode_rev_map_factory_def
      alloc_dict_def Let_def rstrip_string_def)

text \<open>
  Claim C10. While the stored raw mode is absent, which it is for a new resolver and
  stays as long as no update has delivered a value, \<open>match_sound_mode\<close> returns None for
  every argument, a registered alias included, and so does the accessor \<open>sound_mode\<close>;
  both leave the resolver and the world as they were, so the table is not extended.
\<close>

theorem match_absent_raw:
  assumes "priv_sound_mode_raw self = None" and "list_all no_value_op ops"
    and "run ops (self, w) = (self', w')"
  shows "priv_sound_mode_raw self' = None
     \<and> match_sound_mode x self' w' = (Inr None, self', w')
     \<and> sound_mode self' w' = (Inr None, self', w')"
proof -
  have "priv_sound_mode_raw self' = None"
    using run_keeps_raw_absent [of "(self, w)" ops] assms by simp
  then show ?thesis
    by (simp add: match_absent sound_mode_def)
qed

theorem match_absent_raw_witness:
  "priv_sound_mode_raw (fst example_state) = None
   \<and> list_all no_value_op [UpdateSoundMode failing_transport False None, GetSoundMode]
   \<and> map_of (mode_map_rev_of (fst example_state) (snd example_state)) (upper ''Stereo'')
       = Some ''STEREO''
   \<and> (let (self', w') = run [UpdateSoundMode failing_transport False None, GetSoundMode] example_state
      in fst (match_sound_mode (Some ''Stereo'') self' w') = Inr None
         \<and> fst (sound_mode self' w') = Inr None)"
proof -
  have a: "priv_sound_mode_raw (fst example_state) = None"
    unfolding example_state_def by (simp add: factory_raw case_prod_beta)
  have b: "list_all no_value_op [UpdateSoundMode failing_transport False None, GetSoundMode]"
    by (simp add: update_fails_def failing_transport_def)
  have c: "map_of (mode_map_rev_of (fst example_state) (snd example_state)) (upper ''Stereo'')
       = Some ''STEREO''"
    by (simp add: mode_map_rev_of_def example_eval)
  obtain self' w' where r: "run [UpdateSoundMode failing_transport False None, GetSoundMode]
      (fst example_state, snd example_state) = (self', w')"
    by (cases "run [UpdateSoundMode failing_transport False None, GetSoundMode]
      (fst example_state, snd example_state)")
  show ?thesis
    using match_absent_raw [OF a b r, of "Some ''Stereo''"] a b c r
    by simp
qed

section \<open>Setting the sound mode\<close>

text \<open>
  Claim C7. \<open>async_set_sound_mode\<close> with the name of the all-zone-stereo pseudo mode sends
  exactly one command, the all-zone-stereo prefix followed by "ZST ON", and returns what
  that command returns. The URL sent is not the mode selection URL for that name, so the
  generic command is not sent.
\<close>

theorem set_all_zone_stereo_one_command:
  "async_set_sound_mode t ALL_ZONE_STEREO self w =
     (command_answer t (urls_command_set_all_zone_stereo (priv_device self) @ ''ZST ON''),
      self,
      w\<lparr>calls := calls w @ [GetCommand (urls_command_set_all_zone_stereo (priv_device self) @ ''ZST ON'')]\<rparr>)
   \<and> urls_command_set_all_zone_stereo (priv_device self) @ ''ZST ON''
        \<noteq> urls_command_sel_sound_mode (priv_device self) @ ALL_ZONE_STEREO"
proof -
  have "last (p @ ''ZST ON'') \<noteq> last (q @ ALL_ZONE_STEREO)" for p q :: string
    by (simp add: ALL_ZONE_STEREO_def)
  then have "p @ ''ZST ON'' \<noteq> q @ ALL_ZONE_STEREO" for p q :: string
    by metis
  then show ?thesis
    by (simp add: async_set_sound_mode_def async_set_all_zone_stereo_def await_def
        async_get_command_def Let_def)
qed

lemma match_calls:
  "calls (snd (snd (match_sound_mode x self w))) = calls w
   \<and> priv_device (fst (snd (match_sound_mode x self w))) = priv_device self"
  by (simp add: match_sound_mode_def Let_def alloc_list_def odict_setitem_def
      sound_mode_rev_map_factory_def alloc_dict_def split: option.splits)

lemma sound_mode_returns: "\<exists>v. fst (sound_mode self w) = Inr v"
  by (simp add: sound_mode_def match_sound_mode_def Let_def alloc_list_def odict_setitem_def
      sound_mode_rev_map_factory_def alloc_dict_def split: option.splits)

text \<open>
  For every other target the only request sent is the mode selection command, whatever the
  current mode is: the coroutine for "ZST OFF" is built and dropped.
\<close>

lemma set_sound_mode_one_command:
  "m \<noteq> ALL_ZONE_STEREO \<Longrightarrow>
     calls (snd (snd (async_set_sound_mode t m self w)))
       = calls w @ [GetCommand (urls_command_sel_sound_mode (priv_device self) @ m)]"
  using match_calls [of "priv_sound_mode_raw self" self w] sound_mode_returns [of self w]
  by (auto simp: async_set_sound_mode_def sound_mode_def not_awaited_def await_def
      async_get_command_def Let_def split: prod.splits sum.splits)

lemmas match_eval = match_sound_mode_def sound_mode_def odict_setitem_def warning_not_matched_def

text \<open>
  Claim C2. The claim is that setting another mode while the current mode is the
  all-zone-stereo pseudo mode sends the "ZST OFF" command before the mode selection
  command. On the resolver whose receiver reported "ALL ZONE STEREO", the accessor
  \<open>sound_mode\<close> gives the pseudo mode, and setting "STEREO" sends the mode selection command
  only: no command ending in "ZST OFF" is among the requests.
\<close>

theorem set_sound_mode_zst_off_not_sent:
  "fst (sound_mode (fst (example_state_reporting ''ALL ZONE STEREO''))
          (snd (example_state_reporting ''ALL ZONE STEREO''))) = Inr (Some ALL_ZONE_STEREO)
   \<and> ''STEREO'' \<noteq> ALL_ZONE_STEREO
   \<and> fst (async_set_sound_mode (reporting_transport ''STEREO'') ''STEREO''
          (fst (example_state_reporting ''ALL ZONE STEREO''))
          (snd (example_state_reporting ''ALL ZONE STEREO''))) = Inr ()
   \<and> calls (snd (snd (async_set_sound_mode (reporting_transport ''STEREO'') ''STEREO''
          (fst (example_state_reporting ''ALL ZONE STEREO''))
          (snd (example_state_reporting ''ALL ZONE STEREO'')))))
       = calls (snd (example_state_reporting ''ALL ZONE STEREO''))
           @ [GetCommand ''/goform/formiPhoneAppDirect.xml?MSSTEREO'']
   \<and> GetCommand (urls_command_set_all_zone_stereo example_device @ ''ZST OFF'')
        \<notin> set (calls (snd (snd (async_set_sound_mode (reporting_transport ''STEREO'') ''STEREO''
          (fst (example_state_reporting ''ALL ZONE STEREO''))
          (snd (example_state_reporting ''ALL ZONE STEREO''))))))"
  by (simp add: example_state_reporting_def example_eval update_eval match_eval
      async_set_sound_mode_def not_awaited_def await_def async_get_command_def)

section \<open>The reverse map built by the factory\<close>

lemma upper_char_idem: "upper_char (upper_char c) = upper_char c"
  unfolding upper_char_def Let_def by auto

lemma upper_idem: "upper (upper s) = upper s"
  by (simp add: upper_def upper_char_idem)

lemma rev_map_sublist_lookup:
  "map_of (rev_map_sublist m rs rv) u =
     (if \<exists>r \<in> set rs. upper r = u then Some m else map_of rv u)"
  by (induction rs arbitrary: rv) (auto simp: update_conv')

lemma rev_map_items_Some:
  "map_of (rev_map_items tbl rv) u = Some m \<Longrightarrow>
     (\<exists>rs r. (m, rs) \<in> set tbl \<and> r \<in> set rs \<and> upper r = u) \<or> map_of rv u = Some m"
proof (induction tbl rv rule: rev_map_items.induct)
  case (1 rv)
  then show ?case by simp
next
  case (2 matched_mode sublist mode_map rv)
  from 2 show ?case
    by (fastforce simp: rev_map_sublist_lookup split: if_splits)
qed

lemma rev_map_items_keeps:
  "map_of rv u \<noteq> None \<Longrightarrow> map_of (rev_map_items tbl rv) u \<noteq> None"
  by (induction tbl rv rule: rev_map_items.induct) (auto simp: rev_map_sublist_lookup)

lemma rev_map_items_defined:
  "(m, rs) \<in> set tbl \<Longrightarrow> r \<in> set rs \<Longrightarrow> map_of (rev_map_items tbl rv) (upper r) \<noteq> None"
proof (induction tbl rv rule: rev_map_items.induct)
  case (1 rv)
  then show ?case by simp
next
  case (2 matched_mode sublist mode_map rv)
  show ?case
  proof (cases "(m, rs) = (matched_mode, sublist)")
    case True
    have "map_of (rev_map_sublist matched_mode sublist rv) (upper r) \<noteq> None"
      using True 2(3) by (auto simp: rev_map_sublist_lookup)
    then show ?thesis
      by (simp add: rev_map_items_keeps)
  next
    case False
    then show ?thesis using 2 by auto
  qed
qed

text \<open>Over a table with distinct aliases the factory maps every alias to its own mode.\<close>

lemma rev_map_items_distinct:
  assumes "distinct_aliases tbl" and "(m, rs) \<in> set tbl" and "r \<in> set rs"
  shows "map_of (rev_map_items tbl []) (upper r) = Some m"
proof -
  obtain m' where m': "map_of (rev_map_items tbl []) (upper r) = Some m'"
    using rev_map_items_defined [OF assms(2,3), of "[]"] by auto
  then obtain rs' r' where "(m', rs') \<in> set tbl" "r' \<in> set rs'" "upper r' = upper r"
    using rev_map_items_Some [OF m'] by auto
  then have "m' = m"
    using assms unfolding distinct_aliases_def by fastforce
  with m' show ?thesis by simp
qed

lemma rev_map_items_no_alias:
  "no_alias x tbl \<Longrightarrow> map_of (rev_map_items tbl []) (upper x) = None"
proof (rule ccontr)
  assume n: "no_alias x tbl" and "map_of (rev_map_items tbl []) (upper x) \<noteq> None"
  then obtain m where "map_of (rev_map_items tbl []) (upper x) = Some m" by auto
  from rev_map_items_Some [OF this] n show False
    unfolding no_alias_def by fastforce
qed

lemma set_update_subset:
  "p \<in> set (AList.update k v al) \<Longrightarrow> p = (k, v) \<or> p \<in> set al"
  by (induction al) (auto split: if_splits)

lemma update_mem: "(k, v) \<in> set (AList.update k v al)"
  by (induction al) auto

lemma distinct_aliases_update:
  assumes "distinct_aliases tbl" and "no_alias u tbl" and "upper u = u"
  shows "distinct_aliases (AList.update u [u] tbl)"
  unfolding distinct_aliases_def
proof (clarify)
  fix m rs m' rs' r r'
  assume a: "(m, rs) \<in> set (AList.update u [u] tbl)" "(m', rs') \<in> set (AList.update u [u] tbl)"
    "r \<in> set rs" "r' \<in> set rs'" "upper r = upper r'"
  from a(1) have c1: "(m, rs) = (u, [u]) \<or> (m, rs) \<in> set tbl" by (rule set_update_subset)
  from a(2) have c2: "(m', rs') = (u, [u]) \<or> (m', rs') \<in> set tbl" by (rule set_update_subset)
  show "m = m'"
    using c1 c2 a(3,4,5) assms unfolding distinct_aliases_def no_alias_def
    by fastforce
qed

lemma map_update_values:
  "map (\<lambda>(k, l). (k, f l)) (AList.update k v al)
     = AList.update k (f v) (map (\<lambda>(k, l). (k, f l)) al)"
  by (induction al) auto

section \<open>Operations that keep the objects of the resolver\<close>

lemma extends_store_refl: "extends_store w w"
  by (simp add: extends_store_def)

lemma extends_store_trans: "extends_store w w' \<Longrightarrow> extends_store w' w'' \<Longrightarrow> extends_store w w''"
  by (auto simp: extends_store_def)

lemma odict_items_extends:
  assumes "wf_table d w" and "extends_store w w'"
  shows "odict_items w' d = odict_items w d" and "wf_table d w'"
proof -
  have o: "odicts w' d = odicts w d"
    using assms by (simp add: wf_table_def extends_store_def)
  have l: "\<And>k l. (k, l) \<in> set (odicts w d) \<Longrightarrow> lists w' l = lists w l"
    using assms by (fastforce simp: wf_table_def extends_store_def)
  show "odict_items w' d = odict_items w d"
    unfolding odict_items_def o by (rule map_cong) (auto simp: l)
  show "wf_table d w'"
    using assms o by (fastforce simp: wf_table_def extends_store_def)
qed

lemma keeps_objects_wf:
  assumes "wf_resolver self w" and "keeps_objects (self, w) (self', w')"
  shows "wf_resolver self' w'" and "mode_map_of self' w' = mode_map_of self w"
    and "mode_map_rev_of self' w' = mode_map_rev_of self w"
proof -
  have e: "extends_store w w'" and m: "priv_sound_mode_map self' = priv_sound_mode_map self"
    and r: "priv_sound_mode_map_rev self' = priv_sound_mode_map_rev self"
    using assms(2) by (simp_all add: keeps_objects_def)
  have t: "wf_table (priv_sound_mode_map self) w" and a: "priv_sound_mode_map_rev self < next_addr w"
    using assms(1) by (simp_all add: wf_resolver_def)
  show "wf_resolver self' w'"
    using odict_items_extends(2) [OF t e] a e by (simp add: wf_resolver_def m r extends_store_def)
  show "mode_map_of self' w' = mode_map_of self w"
    using odict_items_extends(1) [OF t e] by (simp add: mode_map_of_def m)
  show "mode_map_rev_of self' w' = mode_map_rev_of self w"
    using a e by (simp add: mode_map_rev_of_def r extends_store_def)
qed

lemma keeps_objects_invs:
  assumes "wf_resolver self w" and "keeps_objects (self, w) (self', w')"
  shows "rev_index_inv self' w' = rev_index_inv self w"
    and "rev_map_built self' w' = rev_map_built self w"
  using keeps_objects_wf(2,3) [OF assms]
  by (simp_all add: rev_index_inv_def rev_map_built_def)

lemma keeps_objects_refl: "keeps_objects s s"
  by (simp add: keeps_objects_def extends_store_refl)

lemma keeps_objects_trans: "keeps_objects s s' \<Longrightarrow> keeps_objects s' s'' \<Longrightarrow> keeps_objects s s''"
  using extends_store_trans by (auto simp: keeps_objects_def)

lemma update_sound_mode_keeps:
  "keeps_objects (self, w) (snd (async_update_sound_mode t g c self w))"
  by (auto simp: async_update_sound_mode_def async_update_attrs_status_xml_def
      async_update_attrs_appcommand_def Let_def keeps_objects_def extends_store_def
      split: option.splits bool.splits sum.splits exn.splits)

lemma add_tags_store:
  "lists (add_tags tags w) = lists w \<and> odicts (add_tags tags w) = odicts w
   \<and> dicts (add_tags tags w) = dicts w \<and> next_addr (add_tags tags w) = next_addr w"
  by (induction tags arbitrary: w) (auto simp: add_appcommand_update_tag_def)

lemma setup_keeps: "keeps_objects (self, w) (snd (async_setup t self w))"
proof -
  have a: "keeps_objects (self, w) (self, add_tags appcommand_attrs w)"
    by (simp add: keeps_objects_def extends_store_def add_tags_store)
  have b: "keeps_objects (self, add_tags appcommand_attrs w)
      (snd (async_update_sound_mode t False None self (add_tags appcommand_attrs w)))"
    by (rule update_sound_mode_keeps)
  show ?thesis
    using a keeps_objects_trans [OF a b]
    by (auto simp: async_setup_def Let_def keeps_objects_def split: prod.splits sum.splits)
qed

lemma update_keeps: "keeps_objects (self, w) (snd (async_update t g c self w))"
proof (cases "priv_is_setup self")
  case True
  then show ?thesis by (simp add: async_update_def update_sound_mode_keeps)
next
  case False
  obtain r self1 w1 where s: "async_setup t self w = (r, self1, w1)"
    by (cases "async_setup t self w") auto
  have a: "keeps_objects (self, w) (self1, w1)"
    using setup_keeps [of self w t] s by simp
  have b: "keeps_objects (self1, w1) (snd (async_update_sound_mode t g c self1 w1))"
    by (rule update_sound_mode_keeps)
  show ?thesis
    using False s a keeps_objects_trans [OF a b]
    by (auto simp: async_update_def split: sum.splits)
qed

lemma sound_mode_list_keeps: "keeps_objects (self, w) (self, snd (sound_mode_list self w))"
  by (simp add: keeps_objects_def extends_store_def sound_mode_list_def alloc_list_def)

lemma sound_mode_map_rev_keeps: "keeps_objects (self, w) (self, snd (sound_mode_map_rev self w))"
  by (simp add: keeps_objects_def extends_store_def sound_mode_map_rev_def deepcopy_dict_def
      alloc_dict_def)

section \<open>The copies returned by the accessors\<close>

lemma alloc_list_extends: "extends_store w (snd (alloc_list xs w))"
  by (simp add: alloc_list_def extends_store_def)

lemma deepcopy_items_props:
  "deepcopy_items memo kvs w = (kvs', w') \<Longrightarrow> n \<le> next_addr w \<Longrightarrow>
   \<forall>(l, l') \<in> set memo. l < n \<and> n \<le> l' \<and> l' < next_addr w \<and> lists w l' = lists w l \<Longrightarrow>
   \<forall>(k, l) \<in> set kvs. l < n \<Longrightarrow>
     extends_store w w' \<and> odicts w' = odicts w \<and> dicts w' = dicts w
     \<and> (\<forall>(k, l) \<in> set kvs'. n \<le> l \<and> l < next_addr w')
     \<and> map (\<lambda>(k, l). (k, lists w' l)) kvs' = map (\<lambda>(k, l). (k, lists w l)) kvs"
proof (induction kvs arbitrary: memo w kvs' w')
  case Nil
  then show ?case by (simp add: extends_store_refl)
next
  case (Cons p kvs)
  obtain k l where p: "p = (k, l)" by (cases p)
  have ln: "l < n" using Cons.prems(4) p by simp
  have rest: "\<forall>(k, l) \<in> set kvs. l < n" using Cons.prems(4) by simp
  show ?case
  proof (cases "map_of memo l")
    case (Some l')
    obtain kvs1 w1 where r: "deepcopy_items memo kvs w = (kvs1, w1)"
      by (cases "deepcopy_items memo kvs w")
    have res: "kvs' = (k, l') # kvs1" "w' = w1"
      using Cons.prems(1) p Some r by simp_all
    have mem: "(l, l') \<in> set memo" using Some by (rule map_of_SomeD)
    then have l': "n \<le> l'" "l' < next_addr w" "lists w l' = lists w l"
      using Cons.prems(3) by auto
    have ih: "extends_store w w1 \<and> odicts w1 = odicts w \<and> dicts w1 = dicts w
       \<and> (\<forall>(k, l) \<in> set kvs1. n \<le> l \<and> l < next_addr w1)
       \<and> map (\<lambda>(k, l). (k, lists w1 l)) kvs1 = map (\<lambda>(k, l). (k, lists w l)) kvs"
      using Cons.IH [OF r Cons.prems(2) Cons.prems(3) rest] .
    have "lists w1 l' = lists w l'" "l' < next_addr w1"
      using ih l'(2) by (auto simp: extends_store_def)
    then show ?thesis
      using ih l' by (simp add: res p)
  next
    case None
    define l' where "l' = next_addr w"
    define w0 where "w0 = snd (alloc_list (lists w l) w)"
    have al: "alloc_list (lists w l) w = (l', w0)"
      by (simp add: l'_def w0_def alloc_list_def)
    have w0: "lists w0 = (lists w)(l' := lists w l)" "odicts w0 = odicts w" "dicts w0 = dicts w"
      "next_addr w0 = Suc (next_addr w)"
      by (simp_all add: w0_def l'_def alloc_list_def)
    obtain kvs1 w1 where r: "deepcopy_items ((l, l') # memo) kvs w0 = (kvs1, w1)"
      by (cases "deepcopy_items ((l, l') # memo) kvs w0")
    have res: "kvs' = (k, l') # kvs1" "w' = w1"
      using Cons.prems(1) p None al r by simp_all
    have nl': "n \<le> l'" using Cons.prems(2) by (simp add: l'_def)
    have old: "a < n \<Longrightarrow> lists w0 a = lists w a" for a
      using nl' by (simp add: w0)
    have m: "\<forall>(a, a') \<in> set ((l, l') # memo).
        a < n \<and> n \<le> a' \<and> a' < next_addr w0 \<and> lists w0 a' = lists w0 a"
      using Cons.prems(3) ln nl' by (auto simp: w0 l'_def)
    have n0: "n \<le> next_addr w0" using Cons.prems(2) by (simp add: w0)
    have ih: "extends_store w0 w1 \<and> odicts w1 = odicts w0 \<and> dicts w1 = dicts w0
       \<and> (\<forall>(k, l) \<in> set kvs1. n \<le> l \<and> l < next_addr w1)
       \<and> map (\<lambda>(k, l). (k, lists w1 l)) kvs1 = map (\<lambda>(k, l). (k, lists w0 l)) kvs"
      using Cons.IH [OF r n0 m rest] .
    have e: "extends_store w w1"
      using alloc_list_extends [of w "lists w l"] ih extends_store_trans
      by (auto simp: w0_def)
    have c: "map (\<lambda>(k, l). (k, lists w0 l)) kvs = map (\<lambda>(k, l). (k, lists w l)) kvs"
      by (rule map_cong) (use rest old in auto)
    have h: "lists w1 l' = lists w l" "l' < next_addr w1"
      using ih by (auto simp: extends_store_def w0 l'_def)
    show ?thesis
      using ih e c h nl' by (simp add: res p w0)
  qed
qed

lemma sound_mode_map_copy:
  assumes "wf_resolver self w" and "sound_mode_map self w = (c, w')"
  shows "extends_store w w'" and "owned_from (next_addr w) c w'"
    and "odict_items w' c = mode_map_of self w"
proof -
  let ?d = "priv_sound_mode_map self"
  obtain kvs w1 where r: "deepcopy_items [] (odicts w ?d) w = (kvs, w1)"
    by (cases "deepcopy_items [] (odicts w ?d) w")
  have src: "\<forall>(k, l) \<in> set (odicts w ?d). l < next_addr w"
    using assms(1) by (simp add: wf_resolver_def wf_table_def)
  have p: "extends_store w w1 \<and> odicts w1 = odicts w \<and> dicts w1 = dicts w
     \<and> (\<forall>(k, l) \<in> set kvs. next_addr w \<le> l \<and> l < next_addr w1)
     \<and> map (\<lambda>(k, l). (k, lists w1 l)) kvs = map (\<lambda>(k, l). (k, lists w l)) (odicts w ?d)"
    by (rule deepcopy_items_props [OF r]) (use src in auto)
  have c: "c = next_addr w1" and w': "w' = snd (alloc_odict kvs w1)"
    using assms(2) r by (auto simp: sound_mode_map_def deepcopy_odict_def alloc_odict_def)
  have n1: "next_addr w \<le> next_addr w1" using p by (simp add: extends_store_def)
  show "extends_store w w'"
    using p by (auto simp: w' alloc_odict_def extends_store_def)
  show "owned_from (next_addr w) c w'"
    using p n1 by (auto simp: owned_from_def c w' alloc_odict_def)
  show "odict_items w' c = mode_map_of self w"
    using p by (simp add: odict_items_def mode_map_of_def c w' alloc_odict_def)
qed

lemma sound_mode_map_keeps:
  "wf_resolver self w \<Longrightarrow> keeps_objects (self, w) (self, snd (sound_mode_map self w))"
  using sound_mode_map_copy(1) [of self w "fst (sound_mode_map self w)" "snd (sound_mode_map self w)"]
  by (simp add: keeps_objects_def)

lemma unchanged_below_refl: "unchanged_below n w w"
  by (simp add: unchanged_below_def)

lemma unchanged_below_trans:
  "unchanged_below n w w' \<Longrightarrow> unchanged_below n w' w'' \<Longrightarrow> unchanged_below n w w''"
  by (simp add: unchanged_below_def)

lemma extends_unchanged_below: "extends_store w w' \<Longrightarrow> unchanged_below (next_addr w) w w'"
  by (simp add: extends_store_def unchanged_below_def)

lemma unchanged_below_maps:
  assumes "wf_resolver self w" and "unchanged_below (next_addr w) w w'"
  shows "mode_map_of self w' = mode_map_of self w"
    and "mode_map_rev_of self w' = mode_map_rev_of self w"
proof -
  let ?d = "priv_sound_mode_map self"
  have d: "?d < next_addr w" and ls: "\<And>k l. (k, l) \<in> set (odicts w ?d) \<Longrightarrow> l < next_addr w"
    and r: "priv_sound_mode_map_rev self < next_addr w"
    using assms(1) by (auto simp: wf_resolver_def wf_table_def)
  have o: "odicts w' ?d = odicts w ?d"
    using assms(2) d by (simp add: unchanged_below_def)
  have l: "\<And>k l. (k, l) \<in> set (odicts w ?d) \<Longrightarrow> lists w' l = lists w l"
    using assms(2) ls by (simp add: unchanged_below_def)
  show "mode_map_of self w' = mode_map_of self w"
    unfolding mode_map_of_def odict_items_def o by (rule map_cong) (auto simp: l)
  show "mode_map_rev_of self w' = mode_map_rev_of self w"
    using assms(2) r by (simp add: mode_map_rev_of_def unchanged_below_def)
qed

lemma set_delete_subset: "p \<in> set (AList.delete k al) \<Longrightarrow> p \<in> set al"
  by (induction al) (auto split: if_splits)

lemma mutate_map_frame:
  assumes "owned_from n c w"
  shows "owned_from n c (mutate_map c m w) \<and> unchanged_below n w (mutate_map c m w)"
proof (cases m)
  case (SetItem k xs)
  have "\<And>p. p \<in> set (AList.update k (next_addr w) (odicts w c)) \<Longrightarrow>
      p = (k, next_addr w) \<or> p \<in> set (odicts w c)"
    by (rule set_update_subset)
  then show ?thesis
    using assms SetItem
    by (fastforce simp: owned_from_def unchanged_below_def alloc_list_def odict_setitem_def)
next
  case (SetItemAlias k j)
  show ?thesis
  proof (cases "map_of (odicts w c) j")
    case None
    then show ?thesis using assms SetItemAlias by (simp add: unchanged_below_refl)
  next
    case (Some l)
    then have "(j, l) \<in> set (odicts w c)" by (rule map_of_SomeD)
    then have nl: "n \<le> l" using assms by (auto simp: owned_from_def)
    have "\<And>p. p \<in> set (AList.update k l (odicts w c)) \<Longrightarrow> p = (k, l) \<or> p \<in> set (odicts w c)"
      by (rule set_update_subset)
    then show ?thesis
      using assms SetItemAlias Some nl
      by (fastforce simp: owned_from_def unchanged_below_def odict_setitem_def)
  qed
next
  case (DelItem k)
  have "\<And>p. p \<in> set (AList.delete k (odicts w c)) \<Longrightarrow> p \<in> set (odicts w c)"
    by (rule set_delete_subset)
  then show ?thesis
    using assms DelItem by (fastforce simp: owned_from_def unchanged_below_def)
next
  case Clear
  then show ?thesis
    using assms by (auto simp: owned_from_def unchanged_below_def)
next
  case (EditList k f)
  show ?thesis
  proof (cases "map_of (odicts w c) k")
    case None
    then show ?thesis using assms EditList by (simp add: unchanged_below_refl)
  next
    case (Some l)
    then have "(k, l) \<in> set (odicts w c)" by (rule map_of_SomeD)
    then have nl: "n \<le> l" using assms by (auto simp: owned_from_def)
    then show ?thesis
      using assms EditList Some by (auto simp: owned_from_def unchanged_below_def)
  qed
qed

lemma mutate_map_all_frame:
  "owned_from n c w \<Longrightarrow> unchanged_below n w (mutate_map_all c ms w)"
proof (induction ms arbitrary: w)
  case Nil
  then show ?case by (simp add: unchanged_below_refl)
next
  case (Cons m ms)
  have a: "owned_from n c (mutate_map c m w)" and b: "unchanged_below n w (mutate_map c m w)"
    using mutate_map_frame [OF Cons.prems] by simp_all
  show ?case
    using unchanged_below_trans [OF b Cons.IH [OF a]] by simp
qed

lemma mutate_dict_frame: "n \<le> c \<Longrightarrow> unchanged_below n w (mutate_dict c m w)"
  by (cases m) (auto simp: unchanged_below_def)

lemma mutate_dict_all_frame: "n \<le> c \<Longrightarrow> unchanged_below n w (mutate_dict_all c ms w)"
proof (induction ms arbitrary: w)
  case Nil
  then show ?case by (simp add: unchanged_below_refl)
next
  case (Cons m ms)
  show ?case
    using unchanged_below_trans [OF mutate_dict_frame [OF Cons.prems] Cons.IH [OF Cons.prems]]
    by simp
qed

text \<open>
  Claim C9. The accessors \<open>sound_mode_map\<close> and \<open>sound_mode_map_rev\<close> return copies that
  are independent of the objects of the resolver: the copy has the content of the
  original, and after any sequence of mutations of the returned table (of its items or of
  the lists under its keys) or of the returned dictionary, the table and the reverse
  dictionary of the resolver have the content they had.
\<close>

theorem accessor_copies_independent:
  assumes "wf_resolver self w"
  shows "(case sound_mode_map self w of (c, w1) \<Rightarrow>
            odict_items w1 c = mode_map_of self w
            \<and> mode_map_of self (mutate_map_all c ms w1) = mode_map_of self w
            \<and> mode_map_rev_of self (mutate_map_all c ms w1) = mode_map_rev_of self w)
       \<and> (case sound_mode_map_rev self w of (c, w1) \<Rightarrow>
            dicts w1 c = mode_map_rev_of self w
            \<and> mode_map_of self (mutate_dict_all c ds w1) = mode_map_of self w
            \<and> mode_map_rev_of self (mutate_dict_all c ds w1) = mode_map_rev_of self w)"
proof -
  obtain c w1 where m: "sound_mode_map self w = (c, w1)"
    by (cases "sound_mode_map self w")
  have e: "unchanged_below (next_addr w) w w1"
    using sound_mode_map_copy(1) [OF assms m] by (rule extends_unchanged_below)
  have "unchanged_below (next_addr w) w1 (mutate_map_all c ms w1)"
    using sound_mode_map_copy(2) [OF assms m] by (rule mutate_map_all_frame)
  then have u: "unchanged_below (next_addr w) w (mutate_map_all c ms w1)"
    using e unchanged_below_trans by blast
  have first: "odict_items w1 c = mode_map_of self w
      \<and> mode_map_of self (mutate_map_all c ms w1) = mode_map_of self w
      \<and> mode_map_rev_of self (mutate_map_all c ms w1) = mode_map_rev_of self w"
    using sound_mode_map_copy(3) [OF assms m] unchanged_below_maps [OF assms u] by simp
  obtain c' w1' where r: "sound_mode_map_rev self w = (c', w1')"
    by (cases "sound_mode_map_rev self w")
  have c': "c' = next_addr w" and w1': "w1' = snd (alloc_dict (mode_map_rev_of self w) w)"
    using r by (auto simp: sound_mode_map_rev_def deepcopy_dict_def alloc_dict_def mode_map_rev_of_def)
  have e': "unchanged_below (next_addr w) w w1'"
    by (simp add: w1' alloc_dict_def unchanged_below_def)
  have "unchanged_below (next_addr w) w1' (mutate_dict_all c' ds w1')"
    by (rule mutate_dict_all_frame) (simp add: c')
  then have u': "unchanged_below (next_addr w) w (mutate_dict_all c' ds w1')"
    using e' unchanged_below_trans by blast
  have second: "dicts w1' c' = mode_map_rev_of self w
      \<and> mode_map_of self (mutate_dict_all c' ds w1') = mode_map_of self w
      \<and> mode_map_rev_of self (mutate_dict_all c' ds w1') = mode_map_rev_of self w"
    using unchanged_below_maps [OF assms u'] by (simp add: c' w1' alloc_dict_def)
  show ?thesis
    using first second by (simp add: m r)
qed

lemma example_wf: "wf_resolver (fst example_state) (snd example_state)"
  by (simp add: wf_resolver_def wf_table_def example_eval)

lemmas copy_eval = sound_mode_map_def deepcopy_odict_def sound_mode_map_rev_def deepcopy_dict_def
  mode_map_of_def mode_map_rev_of_def

theorem accessor_copies_independent_witness:
  "wf_resolver (fst example_state) (snd example_state) \<and>
   (case sound_mode_map (fst example_state) (snd example_state) of (c, w1) \<Rightarrow>
      odict_items (mutate_map_all c [EditList ''AUTO'' (\<lambda>xs. xs @ [''DIRECT'']), DelItem ''STEREO''] w1) c
        = [(''AUTO'', [''None'', ''DIRECT'']), (''ALL ZONE STEREO'', [''ALL ZONE STEREO''])]
      \<and> mode_map_of (fst example_state)
          (mutate_map_all c [EditList ''AUTO'' (\<lambda>xs. xs @ [''DIRECT'']), DelItem ''STEREO''] w1)
        = example_table)"
proof -
  have a: "wf_resolver (fst example_state) (snd example_state)"
    by (rule example_wf)
  have b: "mode_map_of (fst example_state) (snd example_state) = example_table"
    by (simp add: mode_map_of_def example_eval)
  have c: "case sound_mode_map (fst example_state) (snd example_state) of (c, w1) \<Rightarrow>
      odict_items (mutate_map_all c [EditList ''AUTO'' (\<lambda>xs. xs @ [''DIRECT'']), DelItem ''STEREO''] w1) c
        = [(''AUTO'', [''None'', ''DIRECT'']), (''ALL ZONE STEREO'', [''ALL ZONE STEREO''])]"
    by (simp add: copy_eval example_eval)
  show ?thesis
    using accessor_copies_independent [OF a,
        of "[EditList ''AUTO'' (\<lambda>xs. xs @ [''DIRECT'']), DelItem ''STEREO'']" "[]"] a b c
    by (simp add: case_prod_beta)
qed

section \<open>The matcher and the reverse index\<close>

lemma match_hit:
  "priv_sound_mode_raw self \<noteq> None \<Longrightarrow> map_of (mode_map_rev_of self w) (upper x) = Some m \<Longrightarrow>
     match_sound_mode (Some x) self w = (Inr (Some m), self, w)"
  by (simp add: match_sound_mode_def mode_map_rev_of_def)

lemma match_miss:
  assumes raw: "priv_sound_mode_raw self \<noteq> None"
    and miss: "map_of (mode_map_rev_of self w) (upper x) = None"
    and wf: "wf_resolver self w"
    and res: "match_sound_mode (Some x) self w = (r, self', w')"
  shows "r = Inr (Some x)"
    and "mode_map_of self' w' = AList.update (upper x) [upper x] (mode_map_of self w)"
    and "rev_map_built self' w'"
    and "wf_resolver self' w'"
    and "priv_sound_mode_raw self' = priv_sound_mode_raw self"
proof -
  let ?d = "priv_sound_mode_map self"
  let ?n = "next_addr w"
  let ?u = "upper x"
  let ?kvs = "AList.update ?u ?n (odicts w ?d)"
  let ?ls = "(lists w)(?n := [?u])"
  let ?rv = "rev_map_items (map (\<lambda>(k, l). (k, ?ls l)) ?kvs) []"
  have d: "?d < ?n" and old: "\<And>k l. (k, l) \<in> set (odicts w ?d) \<Longrightarrow> l < ?n"
    and dk: "distinct (map fst (odicts w ?d))"
    using wf by (auto simp: wf_resolver_def wf_table_def)
  have m: "map_of (dicts w (priv_sound_mode_map_rev self)) ?u = None"
    using miss by (simp add: mode_map_rev_of_def)
  have r: "r = Inr (Some x)" and self': "self' = self\<lparr>priv_sound_mode_map_rev := Suc ?n\<rparr>"
    and w': "w' = w\<lparr>lists := ?ls, next_addr := Suc (Suc ?n),
        odicts := (odicts w)(?d := ?kvs), dicts := (dicts w)(Suc ?n := ?rv),
        log := log w @ [(WARNING, warning_not_matched ?u)]\<rparr>"
    using res raw m
    by (auto simp: match_sound_mode_def Let_def alloc_list_def odict_setitem_def
        sound_mode_rev_map_factory_def alloc_dict_def odict_items_def)
  show "r = Inr (Some x)" by (rule r)
  have c: "map (\<lambda>(k, l). (k, ?ls l)) (odicts w ?d) = map (\<lambda>(k, l). (k, lists w l)) (odicts w ?d)"
  proof (rule map_cong)
    fix p assume "p \<in> set (odicts w ?d)"
    then have "snd p < ?n" using old [of "fst p" "snd p"] by simp
    then show "(case p of (k, l) \<Rightarrow> (k, ?ls l)) = (case p of (k, l) \<Rightarrow> (k, lists w l))"
      by (cases p) simp
  qed simp
  have items: "map (\<lambda>(k, l). (k, ?ls l)) ?kvs = AList.update ?u [?u] (mode_map_of self w)"
    by (simp only: map_update_values c mode_map_of_def odict_items_def fun_upd_same)
  show mm: "mode_map_of self' w' = AList.update ?u [?u] (mode_map_of self w)"
    using items by (simp add: mode_map_of_def odict_items_def self' w')
  show "rev_map_built self' w'"
    using items mm by (simp add: rev_map_built_def mode_map_rev_of_def self' w')
  have "\<And>p. p \<in> set ?kvs \<Longrightarrow> p = (?u, ?n) \<or> p \<in> set (odicts w ?d)"
    by (rule set_update_subset)
  then have "\<forall>(k, l) \<in> set ?kvs. l < Suc (Suc ?n)"
    using old by fastforce
  then show "wf_resolver self' w'"
    using d dk by (simp add: wf_resolver_def wf_table_def self' w' distinct_update)
  show "priv_sound_mode_raw self' = priv_sound_mode_raw self"
    by (simp add: self')
qed

lemma match_cases:
  "match_sound_mode x self w = (Inr None, self, w)
   \<or> match_sound_mode x self w = (Inl AttributeError, self, w)
   \<or> (\<exists>y m. x = Some y \<and> priv_sound_mode_raw self \<noteq> None
         \<and> map_of (mode_map_rev_of self w) (upper y) = Some m
         \<and> match_sound_mode x self w = (Inr (Some m), self, w))
   \<or> (\<exists>y. x = Some y \<and> priv_sound_mode_raw self \<noteq> None
         \<and> map_of (mode_map_rev_of self w) (upper y) = None)"
  by (cases x; cases "priv_sound_mode_raw self")
    (auto simp: match_sound_mode_def mode_map_rev_of_def split: option.splits)

lemma index_inv_lookup:
  "rev_index_inv self w \<Longrightarrow> (m, rs) \<in> set (mode_map_of self w) \<Longrightarrow> r \<in> set rs \<Longrightarrow>
     map_of (mode_map_rev_of self w) (upper r) = Some m"
  unfolding rev_index_inv_def by blast

lemma index_inv_distinct:
  assumes "rev_index_inv self w"
  shows "distinct_aliases (mode_map_of self w)"
  unfolding distinct_aliases_def
proof clarify
  fix m rs m' rs' r r'
  assume a: "(m, rs) \<in> set (mode_map_of self w)" "(m', rs') \<in> set (mode_map_of self w)"
    "r \<in> set rs" "r' \<in> set rs'" "upper r = upper r'"
  have "map_of (mode_map_rev_of self w) (upper r) = Some m"
    using index_inv_lookup [OF assms a(1,3)] .
  moreover have "map_of (mode_map_rev_of self w) (upper r') = Some m'"
    using index_inv_lookup [OF assms a(2,4)] .
  ultimately show "m = m'" using a(5) by simp
qed

lemma index_inv_miss:
  assumes "rev_index_inv self w" and "map_of (mode_map_rev_of self w) (upper x) = None"
  shows "no_alias x (mode_map_of self w)"
  unfolding no_alias_def
proof clarify
  fix m rs r
  assume a: "(m, rs) \<in> set (mode_map_of self w)" "r \<in> set rs" "upper r = upper x"
  have "map_of (mode_map_rev_of self w) (upper r) = Some m"
    using index_inv_lookup [OF assms(1) a(1,2)] .
  then show False using assms(2) a(3) by simp
qed

lemma built_distinct_index:
  assumes "rev_map_built self w" and "distinct_aliases (mode_map_of self w)"
  shows "rev_index_inv self w"
  unfolding rev_index_inv_def
proof clarify
  fix m rs r
  assume a: "(m, rs) \<in> set (mode_map_of self w)" "r \<in> set rs"
  show "map_of (mode_map_rev_of self w) (upper r) = Some m"
    using rev_map_items_distinct [OF assms(2) a] assms(1) by (simp add: rev_map_built_def)
qed

lemma no_alias_upper: "no_alias (upper x) tbl = no_alias x tbl"
  by (simp add: no_alias_def upper_idem)

lemma match_preserves_index:
  assumes "wf_resolver self w" and "rev_index_inv self w"
    and "match_sound_mode x self w = (r, self', w')"
  shows "wf_resolver self' w' \<and> rev_index_inv self' w'"
proof -
  consider (same) "self' = self" "w' = w"
    | (miss) y where "x = Some y" "priv_sound_mode_raw self \<noteq> None"
        "map_of (mode_map_rev_of self w) (upper y) = None"
    using match_cases [of x self w] assms(3) by auto
  then show ?thesis
  proof cases
    case same
    then show ?thesis using assms by simp
  next
    case miss
    have res: "match_sound_mode (Some y) self w = (r, self', w')"
      using assms(3) miss(1) by simp
    note mm = match_miss [OF miss(2,3) assms(1) res]
    have "no_alias (upper y) (mode_map_of self w)"
      using index_inv_miss [OF assms(2) miss(3)] by (simp add: no_alias_upper)
    then have "distinct_aliases (mode_map_of self' w')"
      using distinct_aliases_update [OF index_inv_distinct [OF assms(2)]] mm(2)
      by (simp add: upper_idem)
    then show ?thesis
      using mm(3,4) built_distinct_index by simp
  qed
qed

lemma match_preserves_built:
  assumes "wf_resolver self w" and "rev_map_built self w"
    and "match_sound_mode x self w = (r, self', w')"
  shows "wf_resolver self' w' \<and> rev_map_built self' w'"
proof -
  consider (same) "self' = self" "w' = w"
    | (miss) y where "x = Some y" "priv_sound_mode_raw self \<noteq> None"
        "map_of (mode_map_rev_of self w) (upper y) = None"
    using match_cases [of x self w] assms(3) by auto
  then show ?thesis
  proof cases
    case same
    then show ?thesis using assms by simp
  next
    case miss
    have res: "match_sound_mode (Some y) self w = (r, self', w')"
      using assms(3) miss(1) by simp
    show ?thesis
      using match_miss(3,4) [OF miss(2,3) assms(1) res] by simp
  qed
qed

section \<open>Invariants over sequences of operations\<close>

lemma calls_update_props:
  "wf_resolver self (w\<lparr>calls := cs\<rparr>) = wf_resolver self w"
  "rev_index_inv self (w\<lparr>calls := cs\<rparr>) = rev_index_inv self w"
  "rev_map_built self (w\<lparr>calls := cs\<rparr>) = rev_map_built self w"
  by (simp_all add: wf_resolver_def wf_table_def rev_index_inv_def rev_map_built_def
      mode_map_of_def mode_map_rev_of_def odict_items_def)

lemma set_sound_mode_state:
  "snd (async_set_sound_mode t m self w) =
     (if m = ALL_ZONE_STEREO
      then (self, w\<lparr>calls := calls w
              @ [GetCommand (urls_command_set_all_zone_stereo (priv_device self) @ ''ZST ON'')]\<rparr>)
      else (case snd (sound_mode self w) of (self1, w1) \<Rightarrow>
              (self1, w1\<lparr>calls := calls w1
                 @ [GetCommand (urls_command_sel_sound_mode (priv_device self1) @ m)]\<rparr>)))"
  using sound_mode_returns [of self w]
  by (auto simp: async_set_sound_mode_def async_set_all_zone_stereo_def not_awaited_def
      await_def async_get_command_def Let_def split: prod.splits sum.splits)

text \<open>
  A property of resolver and world that survives the operations which keep the objects,
  the matcher, and a longer request log, survives every operation.
\<close>

lemma step_preserves:
  assumes keeps: "\<And>self w self' w'. wf_resolver self w \<Longrightarrow> P self w \<Longrightarrow>
      keeps_objects (self, w) (self', w') \<Longrightarrow> P self' w'"
    and matches: "\<And>x self w r self' w'. wf_resolver self w \<Longrightarrow> P self w \<Longrightarrow>
      match_sound_mode x self w = (r, self', w') \<Longrightarrow> wf_resolver self' w' \<and> P self' w'"
    and calls: "\<And>self w cs. P self (w\<lparr>calls := cs\<rparr>) = P self w"
    and wf: "wf_resolver self w" and p: "P self w"
  shows "wf_resolver (fst (step c (self, w))) (snd (step c (self, w)))
     \<and> P (fst (step c (self, w))) (snd (step c (self, w)))"
proof -
  have k: "wf_resolver (fst s') (snd s') \<and> P (fst s') (snd s')"
    if "keeps_objects (self, w) s'" for s'
    using keeps_objects_wf(1) [OF wf, of "fst s'" "snd s'"] keeps [OF wf p, of "fst s'" "snd s'"] that
    by simp
  have mt: "wf_resolver (fst (snd (match_sound_mode x self w))) (snd (snd (match_sound_mode x self w)))
     \<and> P (fst (snd (match_sound_mode x self w))) (snd (snd (match_sound_mode x self w)))" for x
    using matches [OF wf p, of x "fst (match_sound_mode x self w)"
        "fst (snd (match_sound_mode x self w))" "snd (snd (match_sound_mode x self w))"]
    by simp
  show ?thesis
  proof (cases c)
    case (Setup t)
    then show ?thesis using k [OF setup_keeps [of self w t]] by simp
  next
    case (Update t g ci)
    then show ?thesis using k [OF update_keeps [of self w t g ci]] by simp
  next
    case (UpdateSoundMode t g ci)
    then show ?thesis using k [OF update_sound_mode_keeps [of self w t g ci]] by simp
  next
    case (MatchSoundMode x)
    then show ?thesis using mt [of x] by simp
  next
    case GetSoundMode
    then show ?thesis using mt [of "priv_sound_mode_raw self"] by (simp add: sound_mode_def)
  next
    case GetSoundModeList
    then show ?thesis using k [OF sound_mode_list_keeps [of self w]] by simp
  next
    case GetSoundModeMap
    then show ?thesis using k [OF sound_mode_map_keeps [OF wf]] by simp
  next
    case GetSoundModeMapRev
    then show ?thesis using k [OF sound_mode_map_rev_keeps [of self w]] by simp
  next
    case (SetSoundMode t m)
    then show ?thesis
      using mt [of "priv_sound_mode_raw self"] wf p
      by (simp add: set_sound_mode_state sound_mode_def calls calls_update_props case_prod_beta)
  qed
qed

lemma run_preserves:
  assumes keeps: "\<And>self w self' w'. wf_resolver self w \<Longrightarrow> P self w \<Longrightarrow>
      keeps_objects (self, w) (self', w') \<Longrightarrow> P self' w'"
    and matches: "\<And>x self w r self' w'. wf_resolver self w \<Longrightarrow> P self w \<Longrightarrow>
      match_sound_mode x self w = (r, self', w') \<Longrightarrow> wf_resolver self' w' \<and> P self' w'"
    and calls: "\<And>self w cs. P self (w\<lparr>calls := cs\<rparr>) = P self w"
  shows "wf_resolver (fst s) (snd s) \<Longrightarrow> P (fst s) (snd s) \<Longrightarrow>
     wf_resolver (fst (run ops s)) (snd (run ops s)) \<and> P (fst (run ops s)) (snd (run ops s))"
proof (induction ops arbitrary: s)
  case Nil
  then show ?case by simp
next
  case (Cons c ops)
  have "wf_resolver (fst (step c s)) (snd (step c s)) \<and> P (fst (step c s)) (snd (step c s))"
    using step_preserves [of P "fst s" "snd s" c, OF keeps matches calls Cons.prems]
    by simp
  then show ?case
    using Cons.IH [of "step c s"] by simp
qed

lemma run_preserves_index:
  "wf_resolver (fst s) (snd s) \<Longrightarrow> rev_index_inv (fst s) (snd s) \<Longrightarrow>
     wf_resolver (fst (run ops s)) (snd (run ops s)) \<and> rev_index_inv (fst (run ops s)) (snd (run ops s))"
proof (rule run_preserves [of rev_index_inv])
  show "rev_index_inv self' w'"
    if "wf_resolver self w" "rev_index_inv self w" "keeps_objects (self, w) (self', w')"
    for self w self' w'
    using keeps_objects_invs(1) [OF that(1,3)] that(2) by simp
  show "wf_resolver self' w' \<and> rev_index_inv self' w'"
    if "wf_resolver self w" "rev_index_inv self w" "match_sound_mode x self w = (r, self', w')"
    for x self w r self' w'
    using match_preserves_index [OF that] .
  show "rev_index_inv self (w\<lparr>calls := cs\<rparr>) = rev_index_inv self w" for self w cs
    by (rule calls_update_props)
qed

lemma run_preserves_built:
  "wf_resolver (fst s) (snd s) \<Longrightarrow> rev_map_built (fst s) (snd s) \<Longrightarrow>
     wf_resolver (fst (run ops s)) (snd (run ops s)) \<and> rev_map_built (fst (run ops s)) (snd (run ops s))"
proof (rule run_preserves [of rev_map_built])
  show "rev_map_built self' w'"
    if "wf_resolver self w" "rev_map_built self w" "keeps_objects (self, w) (self', w')"
    for self w self' w'
    using keeps_objects_invs(2) [OF that(1,3)] that(2) by simp
  show "wf_resolver self' w' \<and> rev_map_built self' w'"
    if "wf_resolver self w" "rev_map_built self w" "match_sound_mode x self w = (r, self', w')"
    for x self w r self' w'
    using match_preserves_built [OF that] .
  show "rev_map_built self (w\<lparr>calls := cs\<rparr>) = rev_map_built self w" for self w cs
    by (rule calls_update_props)
qed

lemma factory_state:
  assumes "wf_table tbl w" and "sound_mode_factory dev tbl w = (self, w')"
  shows "wf_resolver self w'" and "rev_map_built self w'"
    and "mode_map_of self w' = odict_items w tbl"
proof -
  have self: "self = \<lparr>priv_device = dev, priv_is_setup = False, priv_support_sound_mode = None,
      priv_sound_mode_raw = None, priv_sound_mode_map = tbl,
      priv_sound_mode_map_rev = next_addr w\<rparr>"
    and w': "w' = w\<lparr>dicts := (dicts w)(next_addr w := rev_map_items (odict_items w tbl) []),
      next_addr := Suc (next_addr w)\<rparr>"
    using assms(2)
    by (auto simp: sound_mode_factory_def init_resolver_def sound_mode_rev_map_factory_def
        alloc_dict_def Let_def rstrip_string_def)
  show "wf_resolver self w'"
    using assms(1) by (fastforce simp: wf_resolver_def wf_table_def self w')
  show m: "mode_map_of self w' = odict_items w tbl"
    by (simp add: mode_map_of_def odict_items_def self w')
  show "rev_map_built self w'"
    unfolding rev_map_built_def m by (simp add: mode_map_rev_of_def self w')
qed

lemma example_table_wf: "wf_table (fst (load_table example_table empty_world)) (snd (load_table example_table empty_world))"
  by (simp add: wf_table_def example_eval)

lemma example_loaded:
  "odict_items (snd (load_table example_table empty_world)) (fst (load_table example_table empty_world))
     = example_table"
  by (simp add: example_eval)

lemma example_distinct: "distinct_aliases example_table"
  by (simp add: distinct_aliases_def example_eval)

lemma example_factory:
  "sound_mode_factory example_device (fst (load_table example_table empty_world))
     (snd (load_table example_table empty_world)) = example_state"
  by (simp add: example_state_def case_prod_beta)

text \<open>
  One resolver on its own keeps the invariant of the reverse index. For a resolver built
  by the factory over a well-formed table in which no alias, compared in upper case, is
  listed under two keys, the invariant holds; and from any state in which the objects of
  the resolver are well formed and the invariant holds, every sequence of operations of
  the resolver leads to such a state, the self-extension of the matcher included.
\<close>

lemma rev_index_inv_one_resolver:
  "(wf_table tbl w0 \<and> distinct_aliases (odict_items w0 tbl) \<longrightarrow>
      (case sound_mode_factory dev tbl w0 of (self, w) \<Rightarrow>
         wf_resolver self w \<and> rev_index_inv self w))
   \<and> (wf_resolver self w \<and> rev_index_inv self w \<longrightarrow>
      (case run ops (self, w) of (self', w') \<Rightarrow>
         wf_resolver self' w' \<and> rev_index_inv self' w'))"
proof -
  have a: "wf_resolver self0 w1 \<and> rev_index_inv self0 w1"
    if "wf_table tbl w0" "distinct_aliases (odict_items w0 tbl)"
      "sound_mode_factory dev tbl w0 = (self0, w1)" for self0 w1
    using factory_state [OF that(1,3)] that(2) built_distinct_index [of self0 w1] by simp
  have b: "wf_resolver (fst (run ops (self, w))) (snd (run ops (self, w)))
      \<and> rev_index_inv (fst (run ops (self, w))) (snd (run ops (self, w)))"
    if "wf_resolver self w" "rev_index_inv self w"
    using run_preserves_index [of "(self, w)" ops] that by simp
  show ?thesis
    using a b by (auto simp: case_prod_beta)
qed

lemmas run_eval = example_state_reporting_def update_eval match_eval mode_map_of_def
  mode_map_rev_of_def

lemma rev_index_inv_one_resolver_example:
  "wf_table (fst (load_table example_table empty_world)) (snd (load_table example_table empty_world))
   \<and> distinct_aliases (odict_items (snd (load_table example_table empty_world))
        (fst (load_table example_table empty_world)))
   \<and> wf_resolver (fst example_state) (snd example_state)
   \<and> rev_index_inv (fst example_state) (snd example_state)
   \<and> rev_index_inv
       (fst (run [UpdateSoundMode (reporting_transport ''Dolby'') False None, GetSoundMode] example_state))
       (snd (run [UpdateSoundMode (reporting_transport ''Dolby'') False None, GetSoundMode] example_state))
   \<and> mode_map_of
       (fst (run [UpdateSoundMode (reporting_transport ''Dolby'') False None, GetSoundMode] example_state))
       (snd (run [UpdateSoundMode (reporting_transport ''Dolby'') False None, GetSoundMode] example_state))
     = example_table @ [(''DOLBY'', [''DOLBY''])]"
proof -
  let ?ops = "[UpdateSoundMode (reporting_transport ''Dolby'') False None, GetSoundMode]"
  have a: "wf_table (fst (load_table example_table empty_world)) (snd (load_table example_table empty_world))"
    by (rule example_table_wf)
  have b: "distinct_aliases (odict_items (snd (load_table example_table empty_world))
        (fst (load_table example_table empty_world)))"
    by (simp add: example_loaded example_distinct)
  have i: "wf_resolver (fst example_state) (snd example_state)
      \<and> rev_index_inv (fst example_state) (snd example_state)"
    using rev_index_inv_one_resolver [of "fst (load_table example_table empty_world)"
        "snd (load_table example_table empty_world)" example_device "fst example_state"
        "snd example_state" "[]"] a b
    by (simp add: example_factory case_prod_beta)
  have r: "rev_index_inv (fst (run ?ops example_state)) (snd (run ?ops example_state))"
    using rev_index_inv_one_resolver [of "fst (load_table example_table empty_world)"
        "snd (load_table example_table empty_world)" example_device "fst example_state"
        "snd example_state" ?ops] i
    by (simp add: case_prod_beta)
  have m: "mode_map_of (fst (run ?ops example_state)) (snd (run ?ops example_state))
      = example_table @ [(''DOLBY'', [''DOLBY''])]"
    by (simp add: run_eval example_eval)
  show ?thesis
    using a b i r m by simp
qed

section \<open>Matching unknown and registered raw modes\<close>

lemma fst_comp_values: "fst \<circ> (\<lambda>(k, l). (k, f l)) = fst"
  by (rule ext) (simp add: case_prod_beta)

lemma wf_distinct_keys: "wf_resolver self w \<Longrightarrow> distinct (map fst (mode_map_of self w))"
  by (simp add: wf_resolver_def wf_table_def mode_map_of_def odict_items_def fst_comp_values)

lemma rev_lookup_new:
  assumes "no_alias x tbl"
  shows "map_of (rev_map_items (AList.update (upper x) [upper x] tbl) []) (upper x) = Some (upper x)"
proof -
  let ?u = "upper x"
  let ?tbl = "AList.update ?u [?u] tbl"
  have "map_of (rev_map_items ?tbl []) (upper ?u) \<noteq> None"
    by (rule rev_map_items_defined [of ?u "[?u]"]) (simp_all add: update_mem)
  then obtain m where m: "map_of (rev_map_items ?tbl []) ?u = Some m"
    by (auto simp: upper_idem)
  then obtain rs r where o: "(m, rs) \<in> set ?tbl" "r \<in> set rs" "upper r = ?u"
    using rev_map_items_Some [OF m] by auto
  have "(m, rs) = (?u, [?u]) \<or> (m, rs) \<in> set tbl"
    using o(1) by (rule set_update_subset)
  then have "m = ?u"
    using assms o(2,3) unfolding no_alias_def by fastforce
  with m show ?thesis by simp
qed

lemma update_append: "k \<notin> fst ` set al \<Longrightarrow> AList.update k v al = al @ [(k, v)]"
  by (induction al) auto

text \<open>
  Claim C1, as amended. Let a raw mode be stored, let the reverse dictionary be the one
  built from the table, let \<open>x\<close> match no alias of the table when compared in upper case,
  and let \<open>upper(x)\<close> not be a key of the table. Then the first call
  \<open>match_sound_mode(x)\<close> returns \<open>x\<close> as it was given, and the table gets one new entry, at
  its end, with the key \<open>upper(x)\<close> and the list with the single alias \<open>upper(x)\<close>. The
  keys stay distinct, the rebuilt reverse dictionary maps \<open>upper(x)\<close> to itself, and a
  second call with \<open>x\<close> returns \<open>upper(x)\<close> and changes nothing.
\<close>

theorem match_unknown_extends:
  assumes "wf_resolver self w" and "rev_map_built self w"
    and "priv_sound_mode_raw self \<noteq> None" and "no_alias x (mode_map_of self w)"
    and "upper x \<notin> fst ` set (mode_map_of self w)"
  shows "case match_sound_mode (Some x) self w of (r1, self1, w1) \<Rightarrow>
           r1 = Inr (Some x)
           \<and> mode_map_of self1 w1 = mode_map_of self w @ [(upper x, [upper x])]
           \<and> distinct (map fst (mode_map_of self1 w1))
           \<and> map_of (mode_map_rev_of self1 w1) (upper x) = Some (upper x)
           \<and> match_sound_mode (Some x) self1 w1 = (Inr (Some (upper x)), self1, w1)"
proof -
  obtain r1 self1 w1 where res: "match_sound_mode (Some x) self w = (r1, self1, w1)"
    by (cases "match_sound_mode (Some x) self w")
  have miss: "map_of (mode_map_rev_of self w) (upper x) = None"
    using rev_map_items_no_alias [OF assms(4)] assms(2) by (simp add: rev_map_built_def)
  note mm = match_miss [OF assms(3) miss assms(1) res]
  have e: "mode_map_of self1 w1 = mode_map_of self w @ [(upper x, [upper x])]"
    using mm(2) update_append [OF assms(5)] by simp
  have d: "distinct (map fst (mode_map_of self1 w1))"
    using mm(4) by (rule wf_distinct_keys)
  have l: "map_of (mode_map_rev_of self1 w1) (upper x) = Some (upper x)"
    using mm(3) rev_lookup_new [OF assms(4)] by (simp add: rev_map_built_def mm(2))
  have s: "match_sound_mode (Some x) self1 w1 = (Inr (Some (upper x)), self1, w1)"
    using match_hit [OF _ l] mm(5) assms(3) by simp
  show ?thesis
    using mm(1) e d l s by (simp add: res)
qed

text \<open>
  Claim C1 as stated fails: after the receiver reported "Dolby", the first call for
  "Dolby" returns "Dolby" and not its upper case, and the second call returns "DOLBY".
\<close>

theorem match_unknown_returns_raw:
  "fst (match_sound_mode (Some ''Dolby'') (fst (example_state_reporting ''Dolby''))
          (snd (example_state_reporting ''Dolby''))) = Inr (Some ''Dolby'')
   \<and> upper ''Dolby'' = ''DOLBY''
   \<and> fst (match_sound_mode (Some ''Dolby'')
          (fst (step (MatchSoundMode (Some ''Dolby'')) (example_state_reporting ''Dolby'')))
          (snd (step (MatchSoundMode (Some ''Dolby'')) (example_state_reporting ''Dolby''))))
       = Inr (Some ''DOLBY'')"
  by (simp add: run_eval example_eval)

lemma example_reporting_props:
  "wf_resolver (fst (example_state_reporting raw)) (snd (example_state_reporting raw))
   \<and> rev_map_built (fst (example_state_reporting raw)) (snd (example_state_reporting raw))
   \<and> mode_map_of (fst (example_state_reporting raw)) (snd (example_state_reporting raw))
       = example_table
   \<and> priv_sound_mode_raw (fst (example_state_reporting raw)) = Some (rstrip raw)"
proof -
  obtain self0 w0 where e: "example_state = (self0, w0)" by (cases example_state)
  have f: "sound_mode_factory example_device (fst (load_table example_table empty_world))
     (snd (load_table example_table empty_world)) = (self0, w0)"
    using example_factory e by simp
  note fs = factory_state [OF example_table_wf f]
  have k: "keeps_objects (self0, w0) (example_state_reporting raw)"
    unfolding example_state_reporting_def e by (simp add: update_sound_mode_keeps)
  have r: "priv_sound_mode_raw (fst (example_state_reporting raw)) = Some (rstrip raw)"
    by (simp add: example_state_reporting_def async_update_sound_mode_def
        async_update_attrs_status_xml_def reporting_transport_def Let_def rstrip_string_def
        example_eval)
  show ?thesis
    using keeps_objects_wf [OF fs(1), of "fst (example_state_reporting raw)"
        "snd (example_state_reporting raw)"] keeps_objects_invs(2) [OF fs(1), of
        "fst (example_state_reporting raw)" "snd (example_state_reporting raw)"] k fs(2,3) r
    by (simp add: example_loaded)
qed

theorem match_unknown_extends_witness:
  "wf_resolver (fst (example_state_reporting ''Dolby'')) (snd (example_state_reporting ''Dolby''))
   \<and> rev_map_built (fst (example_state_reporting ''Dolby'')) (snd (example_state_reporting ''Dolby''))
   \<and> priv_sound_mode_raw (fst (example_state_reporting ''Dolby'')) \<noteq> None
   \<and> no_alias ''Dolby'' (mode_map_of (fst (example_state_reporting ''Dolby''))
        (snd (example_state_reporting ''Dolby'')))
   \<and> upper ''Dolby'' \<notin> fst ` set (mode_map_of (fst (example_state_reporting ''Dolby''))
        (snd (example_state_reporting ''Dolby'')))
   \<and> (case match_sound_mode (Some ''Dolby'') (fst (example_state_reporting ''Dolby''))
          (snd (example_state_reporting ''Dolby'')) of
        (r1, self1, w1) \<Rightarrow>
          r1 = Inr (Some ''Dolby'')
          \<and> mode_map_of self1 w1 = example_table @ [(''DOLBY'', [''DOLBY''])]
          \<and> match_sound_mode (Some ''Dolby'') self1 w1 = (Inr (Some ''DOLBY''), self1, w1))"
proof -
  let ?s = "example_state_reporting ''Dolby''"
  note p = example_reporting_props [of "''Dolby''"]
  have a: "wf_resolver (fst ?s) (snd ?s)" and b: "rev_map_built (fst ?s) (snd ?s)"
    and m: "mode_map_of (fst ?s) (snd ?s) = example_table"
    using p by simp_all
  have c: "priv_sound_mode_raw (fst ?s) \<noteq> None"
    using p by simp
  have d: "no_alias ''Dolby'' (mode_map_of (fst ?s) (snd ?s))"
    unfolding m by (simp add: no_alias_def example_eval)
  have k: "upper ''Dolby'' \<notin> fst ` set (mode_map_of (fst ?s) (snd ?s))"
    unfolding m by (simp add: example_eval)
  have u: "upper ''Dolby'' = ''DOLBY''"
    by (simp add: example_eval)
  show ?thesis
    using match_unknown_extends [OF a b c d k] a b c d k
    by (simp add: case_prod_beta u m)
qed

text \<open>
  When \<open>upper(x)\<close> is a key of the table under which it is not an alias, the item
  assignment of the miss branch replaces the list under that key: after the receiver
  reported "auto", matching it puts the list with "AUTO" in the place of the list with
  "None". The theorem above leaves this case out.
\<close>

lemma match_existing_key_replaces:
  "mode_map_of (fst (step GetSoundMode (example_state_reporting ''auto'')))
     (snd (step GetSoundMode (example_state_reporting ''auto'')))
   = [(''STEREO'', [''STEREO'']), (''AUTO'', [''AUTO'']),
      (''ALL ZONE STEREO'', [''ALL ZONE STEREO''])]"
  by (simp add: run_eval example_eval)

text \<open>
  Claim C5, as amended. Let a raw mode be stored, let the reverse dictionary be the one
  built from the table, and let no alias be listed under two keys when compared in upper
  case. Then for every alias \<open>r\<close> in the list under the key \<open>m\<close> both
  \<open>match_sound_mode(r)\<close> and \<open>match_sound_mode(upper(r))\<close> return \<open>m\<close> and change nothing.
\<close>

theorem match_registered_alias:
  assumes "rev_map_built self w" and "distinct_aliases (mode_map_of self w)"
    and "priv_sound_mode_raw self \<noteq> None"
    and "(m, rs) \<in> set (mode_map_of self w)" and "r \<in> set rs"
  shows "match_sound_mode (Some r) self w = (Inr (Some m), self, w)
     \<and> match_sound_mode (Some (upper r)) self w = (Inr (Some m), self, w)"
proof -
  have "map_of (mode_map_rev_of self w) (upper r) = Some m"
    using index_inv_lookup [OF built_distinct_index [OF assms(1,2)] assms(4,5)] .
  then show ?thesis
    using match_hit [OF assms(3), of w r m] match_hit [OF assms(3), of w "upper r" m]
    by (simp add: upper_idem)
qed

text \<open>
  Claim C5 as stated fails for a new resolver: no raw mode is stored, and the registered
  alias "STEREO" is matched to None.
\<close>

theorem match_registered_alias_absent_raw:
  "(''STEREO'', [''STEREO'']) \<in> set (mode_map_of (fst example_state) (snd example_state))
   \<and> fst (match_sound_mode (Some ''STEREO'') (fst example_state) (snd example_state))
       \<noteq> Inr (Some ''STEREO'')"
  by (simp add: match_sound_mode_def mode_map_of_def example_eval)

theorem match_registered_alias_witness:
  "rev_map_built (fst (example_state_reporting ''Stereo'')) (snd (example_state_reporting ''Stereo''))
   \<and> distinct_aliases (mode_map_of (fst (example_state_reporting ''Stereo''))
        (snd (example_state_reporting ''Stereo'')))
   \<and> priv_sound_mode_raw (fst (example_state_reporting ''Stereo'')) \<noteq> None
   \<and> (''AUTO'', [''None'']) \<in> set (mode_map_of (fst (example_state_reporting ''Stereo''))
        (snd (example_state_reporting ''Stereo'')))
   \<and> fst (match_sound_mode (Some ''None'') (fst (example_state_reporting ''Stereo''))
        (snd (example_state_reporting ''Stereo''))) = Inr (Some ''AUTO'')
   \<and> fst (match_sound_mode (Some ''NONE'') (fst (example_state_reporting ''Stereo''))
        (snd (example_state_reporting ''Stereo''))) = Inr (Some ''AUTO'')"
proof -
  let ?s = "example_state_reporting ''Stereo''"
  note p = example_reporting_props [of "''Stereo''"]
  have b: "rev_map_built (fst ?s) (snd ?s)"
    and m: "mode_map_of (fst ?s) (snd ?s) = example_table"
    using p by simp_all
  have c: "priv_sound_mode_raw (fst ?s) \<noteq> None"
    using p by simp
  have d: "distinct_aliases (mode_map_of (fst ?s) (snd ?s))"
    unfolding m by (rule example_distinct)
  have e: "(''AUTO'', [''None'']) \<in> set (mode_map_of (fst ?s) (snd ?s))"
    unfolding m by (simp add: example_table_def)
  have f: "''None'' \<in> set [''None'']" by simp
  have u: "upper ''None'' = ''NONE''"
    by (simp add: example_eval)
  show ?thesis
    using match_registered_alias [OF b d c e f] b c d e
    by (simp add: u)
qed

section \<open>Two resolvers on one table\<close>

text \<open>
  Claim C8. The claim is that the invariant of the reverse index holds in every reachable
  state of a resolver. The table object is the default of the field for every resolver,
  so the resolvers of one process refer to the same object, while each has a reverse
  dictionary of its own, which only its own matcher rebuilds. Two resolvers are built on
  the example table; the receiver of the first reports "Dolby" and its owner reads
  \<open>sound_mode\<close>. The table of the second resolver then has the entry "DOLBY" with the alias
  "DOLBY", its reverse dictionary has no entry for it, and the invariant is false for the
  second resolver.
\<close>

theorem shared_table_extension:
  "(''DOLBY'', [''DOLBY'']) \<in> set (mode_map_of (fst second_of_two) (snd second_of_two))
   \<and> ''DOLBY'' \<in> set [''DOLBY'']
   \<and> map_of (mode_map_rev_of (fst second_of_two) (snd second_of_two)) (upper ''DOLBY'') = None"
  by (simp add: second_of_two_def run_eval example_eval)

lemma shared_table_breaks_invariant:
  "\<not> rev_index_inv (fst second_of_two) (snd second_of_two)"
  by (simp add: second_of_two_def rev_index_inv_def run_eval example_eval)

section \<open>No probing of an unsupported receiver\<close>

lemma add_tags_calls: "calls (add_tags tags w) = calls w"
  by (induction tags arbitrary: w) (auto simp: add_appcommand_update_tag_def)

lemma match_fields:
  "priv_device (fst (snd (match_sound_mode x self w))) = priv_device self
   \<and> priv_support_sound_mode (fst (snd (match_sound_mode x self w))) = priv_support_sound_mode self
   \<and> priv_is_setup (fst (snd (match_sound_mode x self w))) = priv_is_setup self
   \<and> calls (snd (snd (match_sound_mode x self w))) = calls w"
  by (simp add: match_sound_mode_def Let_def alloc_list_def odict_setitem_def
      sound_mode_rev_map_factory_def alloc_dict_def split: option.splits)

lemma unsupported_update_sound_mode:
  "use_avr_2016_update (priv_device self) = Some False \<Longrightarrow>
   priv_support_sound_mode self = Some False \<Longrightarrow>
     async_update_sound_mode t g c self w = (Inr (), self, w)"
  by (simp add: async_update_sound_mode_def)

lemma unsupported_setup:
  "use_avr_2016_update (priv_device self) = Some False \<Longrightarrow>
   priv_support_sound_mode self = Some False \<Longrightarrow> \<not> always_supported (priv_device self) \<Longrightarrow>
     async_setup t self w = (Inr (), self\<lparr>priv_is_setup := True\<rparr>, add_tags appcommand_attrs w)"
  by (simp add: async_setup_def always_supported_def unsupported_update_sound_mode Let_def)

lemma unsupported_step:
  assumes f: "use_avr_2016_update (priv_device self) = Some False"
    and s: "priv_support_sound_mode self = Some False"
    and c: "\<not> always_supported (priv_device self) \<or> (priv_is_setup self \<and> \<not> is_setup_op c)"
  shows "priv_device (fst (step c (self, w))) = priv_device self
     \<and> priv_support_sound_mode (fst (step c (self, w))) = Some False
     \<and> (priv_is_setup self \<longrightarrow> priv_is_setup (fst (step c (self, w))))
     \<and> probes (snd (step c (self, w))) = probes w"
proof (cases c)
  case (Setup t)
  then have "\<not> always_supported (priv_device self)" using c by auto
  then show ?thesis
    using Setup f s by (simp add: unsupported_setup probes_def add_tags_calls)
next
  case (Update t g ci)
  show ?thesis
  proof (cases "priv_is_setup self")
    case True
    then show ?thesis using Update f s by (simp add: async_update_def unsupported_update_sound_mode)
  next
    case False
    then have "\<not> always_supported (priv_device self)" using c by auto
    then show ?thesis
      using Update False f s
      by (simp add: async_update_def unsupported_setup unsupported_update_sound_mode probes_def
          add_tags_calls)
  qed
next
  case (UpdateSoundMode t g ci)
  then show ?thesis using f s by (simp add: unsupported_update_sound_mode)
next
  case (MatchSoundMode x)
  then show ?thesis using s match_fields [of x self w] by (simp add: probes_def)
next
  case GetSoundMode
  then show ?thesis
    using s match_fields [of "priv_sound_mode_raw self" self w]
    by (simp add: probes_def sound_mode_def)
next
  case GetSoundModeList
  then show ?thesis using s by (simp add: probes_def sound_mode_list_def alloc_list_def)
next
  case GetSoundModeMap
  have "calls (snd (deepcopy_items memo kvs w0)) = calls w0" for memo kvs w0
    by (induction memo kvs w0 rule: deepcopy_items.induct)
      (auto simp: alloc_list_def Let_def split: option.splits prod.splits)
  then show ?thesis
    using GetSoundModeMap s
    by (simp add: probes_def sound_mode_map_def deepcopy_odict_def alloc_odict_def
        case_prod_beta)
next
  case GetSoundModeMapRev
  then show ?thesis
    using s by (simp add: probes_def sound_mode_map_rev_def deepcopy_dict_def alloc_dict_def)
next
  case (SetSoundMode t m)
  then show ?thesis
    using s match_fields [of "priv_sound_mode_raw self" self w]
    by (simp add: set_sound_mode_state sound_mode_def probes_def case_prod_beta)
qed

lemma unsupported_run:
  "use_avr_2016_update (priv_device (fst s)) = Some False \<Longrightarrow>
   priv_support_sound_mode (fst s) = Some False \<Longrightarrow>
   \<not> always_supported (priv_device (fst s)) \<or> (priv_is_setup (fst s) \<and> \<not> list_ex is_setup_op ops) \<Longrightarrow>
     priv_support_sound_mode (fst (run ops s)) = Some False \<and> probes (snd (run ops s)) = probes (snd s)"
proof (induction ops arbitrary: s)
  case Nil
  then show ?case by simp
next
  case (Cons c ops)
  have c: "\<not> always_supported (priv_device (fst s)) \<or> (priv_is_setup (fst s) \<and> \<not> is_setup_op c)"
    using Cons.prems(3) by auto
  note st = unsupported_step [OF Cons.prems(1,2) c, of "snd s"]
  have "priv_support_sound_mode (fst (run ops (step c s))) = Some False
      \<and> probes (snd (run ops (step c s))) = probes (snd (step c s))"
  proof (rule Cons.IH)
    show "use_avr_2016_update (priv_device (fst (step c s))) = Some False"
      using st Cons.prems(1) by simp
    show "priv_support_sound_mode (fst (step c s)) = Some False"
      using st by simp
    show "\<not> always_supported (priv_device (fst (step c s)))
        \<or> (priv_is_setup (fst (step c s)) \<and> \<not> list_ex is_setup_op ops)"
      using st Cons.prems(3) by auto
  qed
  then show ?case using st by simp
qed

text \<open>
  Claim C6, as amended. When the capability flag is false and the support flag is already
  false, \<open>async_update_sound_mode\<close> returns at once and leaves the resolver and the world
  as they were, so no request is sent. No later operation probes the receiver again,
  whatever the receiver would answer, as long as \<open>async_setup\<close> does not run for a receiver
  of a family that always supports sound modes: that is, when the receiver is of another
  family, or when the resolver is set up and \<open>async_setup\<close> is not called again. The
  support flag stays false and the probing requests stay the same.
\<close>

theorem update_unsupported_no_call:
  "use_avr_2016_update (priv_device self) = Some False \<Longrightarrow>
   priv_support_sound_mode self = Some False \<Longrightarrow>
     async_update_sound_mode t global_update cache self w = (Inr (), self, w)
     \<and> (\<not> always_supported (priv_device self)
          \<or> (priv_is_setup self \<and> \<not> list_ex is_setup_op ops) \<longrightarrow>
        priv_support_sound_mode (fst (run ops (self, w))) = Some False
        \<and> probes (snd (run ops (self, w))) = probes w)"
  using unsupported_run [of "(self, w)" ops]
  by (simp add: unsupported_update_sound_mode)

theorem update_unsupported_no_call_witness:
  "use_avr_2016_update (priv_device (fst example_state_unsupported)) = Some False
   \<and> priv_support_sound_mode (fst example_state_unsupported) = Some False
   \<and> \<not> always_supported (priv_device (fst example_state_unsupported))
   \<and> length (probes (snd example_state_unsupported)) = 2
   \<and> fst (async_update_sound_mode (reporting_transport ''STEREO'') False None
        (fst example_state_unsupported) (snd example_state_unsupported)) = Inr ()
   \<and> priv_support_sound_mode (fst (run
        [Update (reporting_transport ''STEREO'') True None, Setup (reporting_transport ''STEREO''),
         GetSoundMode, SetSoundMode (reporting_transport ''STEREO'') ''STEREO'']
        example_state_unsupported)) = Some False
   \<and> length (probes (snd (run
        [Update (reporting_transport ''STEREO'') True None, Setup (reporting_transport ''STEREO''),
         GetSoundMode, SetSoundMode (reporting_transport ''STEREO'') ''STEREO'']
        example_state_unsupported))) = 2"
proof -
  let ?ops = "[Update (reporting_transport ''STEREO'') True None,
     Setup (reporting_transport ''STEREO''), GetSoundMode,
     SetSoundMode (reporting_transport ''STEREO'') ''STEREO'']"
  have a: "use_avr_2016_update (priv_device (fst example_state_unsupported)) = Some False"
    by (simp add: example_state_unsupported_def example_eval update_eval)
  have b: "priv_support_sound_mode (fst example_state_unsupported) = Some False"
    by (simp add: example_state_unsupported_def example_eval update_eval)
  have c: "\<not> always_supported (priv_device (fst example_state_unsupported))"
    by (simp add: always_supported_def example_state_unsupported_def example_eval update_eval)
  have d: "length (probes (snd example_state_unsupported)) = 2"
    by (simp add: probes_def example_state_unsupported_def example_eval update_eval)
  show ?thesis
    using update_unsupported_no_call [OF a b, of "reporting_transport ''STEREO''" False None
        "snd example_state_unsupported" ?ops] a b c d
    by simp
qed

text \<open>
  Claim C6 as stated fails for a receiver of the family \<open>AVR_X\<close>. After its first update
  found no sound mode, both flags are false and two probing requests were sent. A call of
  \<open>async_setup\<close> sets the support flag to true again, and the next \<open>async_update\<close> sends
  two more probing requests.
\<close>

theorem update_unsupported_probes_after_setup:
  "use_avr_2016_update (priv_device (fst avr_x_state_unsupported)) = Some False
   \<and> priv_support_sound_mode (fst avr_x_state_unsupported) = Some False
   \<and> length (probes (snd avr_x_state_unsupported)) = 2
   \<and> priv_support_sound_mode (fst (run [Setup failing_transport] avr_x_state_unsupported))
       = Some True
   \<and> length (probes (snd (run [Setup failing_transport, Update failing_transport False None]
        avr_x_state_unsupported))) = 4"
  by (simp add: avr_x_state_unsupported_def probes_def async_update_def async_setup_def
      appcommand_attrs_def add_appcommand_update_tag_def example_eval update_eval)

end
